theory Spec2Isabelle
  imports Main "HOL-Library.Word"
begin

section \<open>JavaScript values used by the CSV helper\<close>

text \<open>
  A JavaScript string is a sequence of 16-bit UTF-16 code units; \<open>line[i]\<close>,
  \<open>includes\<close>, \<open>replace\<close>, \<open>split\<close> and \<open>trim\<close> all work on code units (every
  character they look for lies in the Basic Multilingual Plane).  ASCII literals of the
  source are written \<open>js ''...''\<close>.
\<close>

type_synonym unit16 = "16 word"
type_synonym jsstring = "unit16 list"

definition js :: "string \<Rightarrow> jsstring" where
  "js s = map of_char s"

definition quote :: unit16 where "quote = 0x22"
definition comma :: unit16 where "comma = 0x2C"
definition newline :: unit16 where "newline = 0x0A"
definition creturn :: unit16 where "creturn = 0x0D"
definition semicolon :: unit16 where "semicolon = 0x3B"
definition minus_sign :: unit16 where "minus_sign = 0x2D"
definition plus_sign :: unit16 where "plus_sign = 0x2B"
definition BOM :: unit16 where "BOM = 0xFEFF"

text \<open>
  A JavaScript number is a binary64 float.  The numbers of this program are timestamps
  (\<open>Date.now()\<close>, whole milliseconds) and ratings, so the model keeps the integer-valued
  numbers and \<open>NaN\<close>; it is exact for integers up to \<open>2 ^ 53\<close> in absolute value, where
  every integer is a binary64 value and \<open>String\<close> prints plain decimal digits.
\<close>

datatype number = NaN | IntNum int

text \<open>
  The scalars that \<open>escapeCSV\<close> receives: \<open>string | undefined | number\<close>.  No caller
  passes \<open>null\<close>.
\<close>

datatype scalar = Undefined | S jsstring | N number

subsection \<open>\<open>String(n)\<close> and \<open>n.toString()\<close> on integer-valued numbers\<close>

definition digitChar :: "nat \<Rightarrow> unit16" where
  "digitChar d = of_nat (48 + d)"

fun digitsOf :: "nat \<Rightarrow> jsstring" where
  "digitsOf n = (if n < 10 then [digitChar n] else digitsOf (n div 10) @ [digitChar (n mod 10)])"

declare digitsOf.simps [simp del]

definition numToString :: "number \<Rightarrow> jsstring" where
  "numToString x =
     (case x of
        NaN \<Rightarrow> js ''NaN''
      | IntNum n \<Rightarrow> if n < 0 then minus_sign # digitsOf (nat (- n)) else digitsOf (nat n))"

text \<open>\<open>String(v)\<close> for a defined scalar; \<open>escapeCSV\<close> never stringifies \<open>undefined\<close>.\<close>

definition String_of :: "scalar \<Rightarrow> jsstring" where
  "String_of v = (case v of Undefined \<Rightarrow> js ''undefined'' | S s \<Rightarrow> s | N x \<Rightarrow> numToString x)"

section \<open>The CSV primitives\<close>

text \<open>\<open>stringified.replace(/"/g, '""')\<close>: every double quote is doubled.\<close>

definition doubleQuotes :: "jsstring \<Rightarrow> jsstring" where
  "doubleQuotes s = concat (map (\<lambda>c. if c = quote then [quote, quote] else [c]) s)"

text \<open>
  \<^verbatim>\<open>
  const escapeCSV = (str: string | undefined | number) => {
    if (str === undefined || str === null) return '';
    const stringified = String(str);
    if (stringified.includes(',') || stringified.includes('\n') || stringified.includes('"')) {
      return `"${stringified.replace(/"/g, '""')}"`;
    }
    return stringified;
  };
  \<close>
\<close>

definition escapeCSV :: "scalar \<Rightarrow> jsstring" where
  "escapeCSV str =
     (if str = Undefined then []
      else let stringified = String_of str in
        if comma \<in> set stringified \<or> newline \<in> set stringified \<or> quote \<in> set stringified
        then [quote] @ doubleQuotes stringified @ [quote]
        else stringified)"

text \<open>
  \<^verbatim>\<open>
  const parseCSVLine = (line: string): string[] => {
    const result = [];
    let current = '';
    let inQuotes = false;
    for (let i = 0; i < line.length; i++) {
      const char = line[i];
      if (char === '"') {
        if (inQuotes && line[i + 1] === '"') { current += '"'; i++; }
        else { inQuotes = !inQuotes; }
      } else if (char === ',' && !inQuotes) {
        result.push(current); current = '';
      } else { current += char; }
    }
    result.push(current);
    return result;
  };
  \<close>
  The loop is a recursion over the code units not yet read, carrying \<open>result\<close>,
  \<open>current\<close> and \<open>inQuotes\<close>.  \<open>line[i + 1]\<close> past the end is \<open>undefined\<close>, which is not
  a quote.
\<close>

fun parseCSVLine_loop :: "jsstring \<Rightarrow> jsstring list \<Rightarrow> jsstring \<Rightarrow> bool \<Rightarrow> jsstring list" where
  "parseCSVLine_loop [] result current inQuotes = result @ [current]"
| "parseCSVLine_loop (c # rest) result current inQuotes =
     (if c = quote then
        (case rest of
           next # rest' \<Rightarrow>
             if inQuotes \<and> next = quote
             then parseCSVLine_loop rest' result (current @ [quote]) inQuotes
             else parseCSVLine_loop rest result current (\<not> inQuotes)
         | [] \<Rightarrow> parseCSVLine_loop rest result current (\<not> inQuotes))
      else if c = comma \<and> \<not> inQuotes then parseCSVLine_loop rest (result @ [current]) [] inQuotes
      else parseCSVLine_loop rest result (current @ [c]) inQuotes)"

definition parseCSVLine :: "jsstring \<Rightarrow> jsstring list" where
  "parseCSVLine line = parseCSVLine_loop line [] [] False"

subsection \<open>Joining, splitting, trimming\<close>

text \<open>\<open>Array.prototype.join\<close>: the elements with the separator between neighbours.\<close>

fun joinWith :: "jsstring \<Rightarrow> jsstring list \<Rightarrow> jsstring" where
  "joinWith sep [] = []"
| "joinWith sep [x] = x"
| "joinWith sep (x # y # ys) = x @ sep @ joinWith sep (y # ys)"

text \<open>
  \<open>csvText.split(/\r?\n/)\<close>: the text is cut at every newline, and a carriage return
  directly before the newline belongs to the cut.  The regular expression matches at the
  leftmost position, so a carriage return followed by a newline is consumed with it.  The
  empty text gives one empty line.
\<close>

fun splitLines_loop :: "jsstring \<Rightarrow> jsstring \<Rightarrow> jsstring list" where
  "splitLines_loop [] current = [current]"
| "splitLines_loop (c # rest) current =
     (if c = newline then current # splitLines_loop rest []
      else (case rest of
              next # rest' \<Rightarrow>
                if c = creturn \<and> next = newline then current # splitLines_loop rest' []
                else splitLines_loop rest (current @ [c])
            | [] \<Rightarrow> splitLines_loop rest (current @ [c])))"

definition splitLines :: "jsstring \<Rightarrow> jsstring list" where
  "splitLines csvText = splitLines_loop csvText []"

text \<open>
  \<open>s.split(sep)\<close> for a non-empty separator string (\<open>';'\<close> and \<open>';;;'\<close> in the source):
  the text is cut at each occurrence of the separator, found from left to right without
  overlap.
\<close>

function splitOn_loop :: "jsstring \<Rightarrow> jsstring \<Rightarrow> jsstring \<Rightarrow> jsstring list" where
  "splitOn_loop sep [] current = [current]"
| "splitOn_loop sep (c # rest) current =
     (if sep \<noteq> [] \<and> take (length sep) (c # rest) = sep
      then current # splitOn_loop sep (drop (length sep) (c # rest)) []
      else splitOn_loop sep rest (current @ [c]))"
  by pat_completeness auto
termination
  by (relation "measure (\<lambda>(sep, s, current). length s)") auto

definition splitOn :: "jsstring \<Rightarrow> jsstring \<Rightarrow> jsstring list" where
  "splitOn sep s = splitOn_loop sep s []"

text \<open>
  \<open>String.prototype.trim\<close> removes the leading and trailing code units that are
  ECMAScript \<open>WhiteSpace\<close> (TAB, VT, FF, SP, NBSP, ZWNBSP and the Unicode space
  separators) or \<open>LineTerminator\<close> (LF, CR, LS, PS).
\<close>

definition isWhiteSpace :: "unit16 \<Rightarrow> bool" where
  "isWhiteSpace c =
     (c = 0x09 \<or> c = 0x0A \<or> c = 0x0B \<or> c = 0x0C \<or> c = 0x0D \<or> c = 0x20 \<or> c = 0xA0
      \<or> c = 0x1680 \<or> (0x2000 \<le> c \<and> c \<le> 0x200A) \<or> c = 0x2028 \<or> c = 0x2029
      \<or> c = 0x202F \<or> c = 0x205F \<or> c = 0x3000 \<or> c = 0xFEFF)"

definition trim :: "jsstring \<Rightarrow> jsstring" where
  "trim s = rev (dropWhile isWhiteSpace (rev (dropWhile isWhiteSpace s)))"

text \<open>
  \<open>csvText.split(/\r?\n/).filter(l => l.trim())\<close>: the lines that are not blank.  The
  callers read the lines from index 1; index 0 is the header.
\<close>

definition csvLines :: "jsstring \<Rightarrow> jsstring list" where
  "csvLines csvText = filter (\<lambda>l. trim l \<noteq> []) (splitLines csvText)"

subsection \<open>\<open>Number(cell)\<close>\<close>

text \<open>
  \<open>Number\<close> applied to a cell: \<open>undefined\<close> gives \<open>NaN\<close>; a string is trimmed, the
  empty string is \<open>0\<close>, an optionally signed run of decimal digits is its value, and a
  text that is no numeric literal is \<open>NaN\<close>.  This is \<open>StringToNumber\<close> on the cells
  whose value is an integer or \<open>NaN\<close>.  Literals with a fraction, an exponent, a radix
  prefix or \<open>Infinity\<close> denote numbers that the type \<open>number\<close> above does not hold; they
  lie outside the model, and no concrete input below has such a cell.
\<close>

definition isDigit :: "unit16 \<Rightarrow> bool" where
  "isDigit c = (0x30 \<le> c \<and> c \<le> 0x39)"

definition digitVal :: "unit16 \<Rightarrow> nat" where
  "digitVal c = unat c - 48"

definition digitsValue :: "jsstring \<Rightarrow> nat" where
  "digitsValue ds = foldl (\<lambda>acc c. 10 * acc + digitVal c) 0 ds"

definition isDigits :: "jsstring \<Rightarrow> bool" where
  "isDigits ds = (ds \<noteq> [] \<and> list_all isDigit ds)"

definition Number :: "jsstring option \<Rightarrow> number" where
  "Number v =
     (case v of
        None \<Rightarrow> NaN
      | Some s \<Rightarrow>
          (case trim s of
             [] \<Rightarrow> IntNum 0
           | c # ds \<Rightarrow>
               if c = minus_sign \<and> isDigits ds then IntNum (- int (digitsValue ds))
               else if c = plus_sign \<and> isDigits ds then IntNum (int (digitsValue ds))
               else if isDigits (c # ds) then IntNum (int (digitsValue (c # ds)))
               else NaN))"

text \<open>Truthiness of a number: \<open>NaN\<close> and zero are falsy.\<close>

definition truthyNum :: "number \<Rightarrow> bool" where
  "truthyNum x = (case x of NaN \<Rightarrow> False | IntNum n \<Rightarrow> n \<noteq> 0)"

subsection \<open>The clock and the shared pieces of the row loops\<close>

text \<open>
  \<open>Date.now()\<close> is read from the environment.  A row of the loop reads it at most
  twice, for a missing id and for a missing \<open>addedAt\<close>; the clock gives the reading of
  each call by the row index and the place of the call.
\<close>

datatype readAt = ForId | ForAddedAt

type_synonym clock = "nat \<Rightarrow> readAt \<Rightarrow> int"

definition Date_now :: "clock \<Rightarrow> nat \<Rightarrow> readAt \<Rightarrow> number" where
  "Date_now clk i site = IntNum (clk i site)"

text \<open>\<open>cols[k]\<close>: \<open>undefined\<close> past the end of the array.\<close>

definition at :: "'a list \<Rightarrow> nat \<Rightarrow> 'a option" where
  "at cols k = (if k < length cols then Some (cols ! k) else None)"

text \<open>\<open>cols[0] || Date.now().toString() + i\<close>: string concatenation of the two numbers.\<close>

definition synthId :: "clock \<Rightarrow> nat \<Rightarrow> jsstring" where
  "synthId clk i = numToString (Date_now clk i ForId) @ numToString (IntNum (int i))"

definition idOf :: "clock \<Rightarrow> nat \<Rightarrow> jsstring list \<Rightarrow> jsstring" where
  "idOf clk i cols =
     (case at cols 0 of
        Some c \<Rightarrow> if c \<noteq> [] then c else synthId clk i
      | None \<Rightarrow> synthId clk i)"

text \<open>\<open>Number(cols[k]) || Date.now()\<close>.\<close>

definition addedAtOf :: "clock \<Rightarrow> nat \<Rightarrow> jsstring list \<Rightarrow> nat \<Rightarrow> number" where
  "addedAtOf clk i cols k =
     (if truthyNum (Number (at cols k)) then Number (at cols k) else Date_now clk i ForAddedAt)"

text \<open>
  The loop \<open>for (let i = 1; i < lines.length; i++)\<close> of every parse function: the body
  reads \<open>lines[i]\<close> and either skips the row (\<open>continue\<close>, \<open>None\<close>) or pushes one
  record.  \<open>forRows body i ls\<close> runs the body on the lines \<open>ls\<close>, the first of which has
  index \<open>i\<close>.
\<close>

fun forRows :: "(nat \<Rightarrow> jsstring \<Rightarrow> 'a option) \<Rightarrow> nat \<Rightarrow> jsstring list \<Rightarrow> 'a list" where
  "forRows body i [] = []"
| "forRows body i (l # ls) =
     (case body i l of
        None \<Rightarrow> forRows body (Suc i) ls
      | Some item \<Rightarrow> item # forRows body (Suc i) ls)"

text \<open>An optional field handed to \<open>escapeCSV\<close>.\<close>

definition optS :: "jsstring option \<Rightarrow> scalar" where
  "optS v = (case v of None \<Rightarrow> Undefined | Some s \<Rightarrow> S s)"

definition optN :: "number option \<Rightarrow> scalar" where
  "optN v = (case v of None \<Rightarrow> Undefined | Some x \<Rightarrow> N x)"

text \<open>
  \<^verbatim>\<open>'\uFEFF' + [headers.join(','), ...rows].join('\n')\<close>, where each row is
  \<^verbatim>\<open>[...].map(escapeCSV).join(',')\<close>.
\<close>

definition csvRow :: "scalar list \<Rightarrow> jsstring" where
  "csvRow cells = joinWith [comma] (map escapeCSV cells)"

definition csvText :: "jsstring list \<Rightarrow> jsstring list \<Rightarrow> jsstring" where
  "csvText headers rows = BOM # joinWith [newline] (joinWith [comma] headers # rows)"

text \<open>The text that a cell written by \<open>escapeCSV\<close> stands for: empty for \<open>undefined\<close>.\<close>

definition cellText :: "scalar \<Rightarrow> jsstring" where
  "cellText v = (if v = Undefined then [] else String_of v)"

section \<open>The schema adapters\<close>

text \<open>
  One record type for each interface of \<open>types.ts\<close>.  A field is optional here when the
  interface marks it optional (\<open>?\<close>) or when the parse function can leave it
  \<open>undefined\<close> (a cell past the end of a short row).  Field names carry a suffix for the
  record, since the interfaces share the names \<open>id\<close>, \<open>title\<close>, \<open>status\<close> and
  \<open>addedAt\<close>.
\<close>

subsection \<open>Japanese vocabulary\<close>

record JapaneseWord =
  id_jw :: jsstring
  word_jw :: jsstring
  reading_jw :: jsstring
  meaning_jw :: jsstring
  meaningJP_jw :: jsstring
  exampleSentence_jw :: jsstring
  exampleTranslation_jw :: jsstring
  addedAt_jw :: number

definition japaneseHeaders :: "jsstring list" where
  "japaneseHeaders = map js [''ID'', ''Word'', ''Reading'', ''Meaning (CH)'', ''Meaning (JP)'',
     ''Example'', ''Example Translation'', ''AddedAt'']"

definition japaneseCells :: "JapaneseWord \<Rightarrow> scalar list" where
  "japaneseCells item = [S (id_jw item), S (word_jw item), S (reading_jw item), S (meaning_jw item),
     S (meaningJP_jw item), S (exampleSentence_jw item), S (exampleTranslation_jw item),
     N (addedAt_jw item)]"

definition generateJapaneseCSV :: "JapaneseWord list \<Rightarrow> jsstring" where
  "generateJapaneseCSV items = csvText japaneseHeaders (map (\<lambda>item. csvRow (japaneseCells item)) items)"

text \<open>
  \<^verbatim>\<open>
    const cols = parseCSVLine(lines[i]);
    if (cols.length < 7) continue;
    items.push({
      id: cols[0] || Date.now().toString() + i,
      word: cols[1], reading: cols[2], meaning: cols[3], meaningJP: cols[4],
      exampleSentence: cols[5], exampleTranslation: cols[6],
      addedAt: Number(cols[7]) || Date.now()
    });
  \<close>
  The guard leaves at least seven cells, so \<open>cols[1]\<close> to \<open>cols[6]\<close> are strings.
\<close>

definition japaneseItem :: "clock \<Rightarrow> nat \<Rightarrow> jsstring list \<Rightarrow> JapaneseWord" where
  "japaneseItem clk i cols =
     \<lparr> id_jw = idOf clk i cols,
       word_jw = cols ! 1, reading_jw = cols ! 2, meaning_jw = cols ! 3,
       meaningJP_jw = cols ! 4, exampleSentence_jw = cols ! 5,
       exampleTranslation_jw = cols ! 6,
       addedAt_jw = addedAtOf clk i cols 7 \<rparr>"

definition japaneseRow :: "clock \<Rightarrow> nat \<Rightarrow> jsstring \<Rightarrow> JapaneseWord option" where
  "japaneseRow clk i line =
     (let cols = parseCSVLine line in
      if length cols < 7 then None else Some (japaneseItem clk i cols))"

definition parseJapaneseCSV :: "clock \<Rightarrow> jsstring \<Rightarrow> JapaneseWord list" where
  "parseJapaneseCSV clk text = forRows (japaneseRow clk) 1 (drop 1 (csvLines text))"

subsection \<open>Travel spots\<close>

datatype TravelStatus = WANT_TO_GO | VISITED

text \<open>The string values of the enum: \<open>'Want to Go'\<close> and \<open>'Visited'\<close>.\<close>

definition TravelStatus_value :: "TravelStatus \<Rightarrow> jsstring" where
  "TravelStatus_value st = (case st of WANT_TO_GO \<Rightarrow> js ''Want to Go'' | VISITED \<Rightarrow> js ''Visited'')"

record TravelSpot =
  id_ts :: jsstring
  name_ts :: jsstring
  address_ts :: "jsstring option"
  status_ts :: TravelStatus
  googleMapsUri_ts :: "jsstring option"
  rating_ts :: "number option"
  userNotes_ts :: "jsstring option"
  addedAt_ts :: number

definition travelHeaders :: "jsstring list" where
  "travelHeaders = map js [''ID'', ''Name'', ''Address'', ''Status'', ''GoogleMapsUri'', ''Rating'',
     ''UserNotes'', ''AddedAt'']"

definition travelCells :: "TravelSpot \<Rightarrow> scalar list" where
  "travelCells item = [S (id_ts item), S (name_ts item), optS (address_ts item),
     S (TravelStatus_value (status_ts item)), optS (googleMapsUri_ts item), optN (rating_ts item),
     optS (userNotes_ts item), N (addedAt_ts item)]"

definition generateTravelCSV :: "TravelSpot list \<Rightarrow> jsstring" where
  "generateTravelCSV items = csvText travelHeaders (map (\<lambda>item. csvRow (travelCells item)) items)"

text \<open>
  The two localized synonyms of the source, as code units: U+53BB U+904E (Chinese) and
  U+884C U+3063 U+305F (Japanese).
\<close>

definition visited_zh :: jsstring where "visited_zh = [0x53BB, 0x904E]"
definition visited_ja :: jsstring where "visited_ja = [0x884C, 0x3063, 0x305F]"

text \<open>
  \<^verbatim>\<open>
    if (cols.length < 3) continue;
    let status = TravelStatus.WANT_TO_GO;
    if (cols[3] === 'Visited' || cols[3] === <zh> || cols[3] === <ja>) status = TravelStatus.VISITED;
    items.push({
      id: cols[0] || Date.now().toString() + i,
      name: cols[1], address: cols[2], status: status, googleMapsUri: cols[4],
      rating: cols[5] ? Number(cols[5]) : undefined, userNotes: cols[6],
      addedAt: Number(cols[7]) || Date.now()
    });
  \<close>
\<close>

definition travelStatusOf :: "jsstring option \<Rightarrow> TravelStatus" where
  "travelStatusOf cell =
     (if cell = Some (js ''Visited'') \<or> cell = Some visited_zh \<or> cell = Some visited_ja
      then VISITED else WANT_TO_GO)"

definition travelItem :: "clock \<Rightarrow> nat \<Rightarrow> jsstring list \<Rightarrow> TravelSpot" where
  "travelItem clk i cols =
     \<lparr> id_ts = idOf clk i cols,
       name_ts = cols ! 1, address_ts = at cols 2,
       status_ts = travelStatusOf (at cols 3),
       googleMapsUri_ts = at cols 4,
       rating_ts = (case at cols 5 of
                      Some c \<Rightarrow> if c \<noteq> [] then Some (Number (Some c)) else None
                    | None \<Rightarrow> None),
       userNotes_ts = at cols 6,
       addedAt_ts = addedAtOf clk i cols 7 \<rparr>"

definition travelRow :: "clock \<Rightarrow> nat \<Rightarrow> jsstring \<Rightarrow> TravelSpot option" where
  "travelRow clk i line =
     (let cols = parseCSVLine line in
      if length cols < 3 then None else Some (travelItem clk i cols))"

definition parseTravelCSV :: "clock \<Rightarrow> jsstring \<Rightarrow> TravelSpot list" where
  "parseTravelCSV clk text = forRows (travelRow clk) 1 (drop 1 (csvLines text))"

subsection \<open>Music\<close>

record MusicItem =
  id_mu :: jsstring
  artist_mu :: jsstring
  song_mu :: jsstring
  url_mu :: "jsstring option"
  addedAt_mu :: number

definition musicHeaders :: "jsstring list" where
  "musicHeaders = map js [''ID'', ''Artist'', ''Song'', ''URL'', ''AddedAt'']"



text \<open>
  \<^verbatim>\<open>
    if (cols.length < 3) continue;
    items.push({
      id: cols[0] || Date.now().toString() + i,
      artist: cols[1], song: cols[2], url: cols[3],
      addedAt: Number(cols[4]) || Date.now()
    });
  \<close>
\<close>

definition musicItem :: "clock \<Rightarrow> nat \<Rightarrow> jsstring list \<Rightarrow> MusicItem" where
  "musicItem clk i cols =
     \<lparr> id_mu = idOf clk i cols,
       artist_mu = cols ! 1, song_mu = cols ! 2, url_mu = at cols 3,
       addedAt_mu = addedAtOf clk i cols 4 \<rparr>"

definition musicRow :: "clock \<Rightarrow> nat \<Rightarrow> jsstring \<Rightarrow> MusicItem option" where
  "musicRow clk i line =
     (let cols = parseCSVLine line in
      if length cols < 3 then None else Some (musicItem clk i cols))"

definition parseMusicCSV :: "clock \<Rightarrow> jsstring \<Rightarrow> MusicItem list" where
  "parseMusicCSV clk text = forRows (musicRow clk) 1 (drop 1 (csvLines text))"

subsection \<open>Entertainment (media items)\<close>

text \<open>
  \<open>type\<close> and \<open>status\<close> are strings at run time: \<open>cols[1] as MediaType\<close> is an
  unchecked cast, and the status type is a union of three string literals.  The four
  values of the enum \<open>MediaType\<close> are \<open>'YouTube'\<close>, \<open>'Anime'\<close>, \<open>'Manga'\<close> and
  \<open>'Drama'\<close>.
\<close>

definition MediaType_values :: "jsstring list" where
  "MediaType_values = map js [''YouTube'', ''Anime'', ''Manga'', ''Drama'']"

definition MediaStatus_values :: "jsstring list" where
  "MediaStatus_values = map js [''Watching'', ''Completed'', ''Plan to Watch'']"

record MediaItem =
  id_me :: jsstring
  type_me :: jsstring
  title_me :: jsstring
  status_me :: jsstring
  link_me :: "jsstring option"
  rating_me :: "number option"
  notes_me :: "jsstring option"
  addedAt_me :: number

definition mediaHeaders :: "jsstring list" where
  "mediaHeaders = map js [''ID'', ''Type'', ''Title'', ''Status'', ''Link'', ''Rating'', ''Notes'',
     ''AddedAt'']"



text \<open>
  \<^verbatim>\<open>
    if (cols.length < 4) continue;
    const statusStr = cols[3];
    const status = (statusStr === 'Completed' ? 'Completed'
                    : statusStr === 'Plan to Watch' ? 'Plan to Watch' : 'Watching');
    items.push({
      id: cols[0] || Date.now().toString() + i,
      type: cols[1] as MediaType,
      title: cols[2],
      status: status,
      link: cols[4],
      rating: Number(cols[5]) || undefined,
      notes: cols[6],
      addedAt: Number(cols[7]) || Date.now()
    });
  \<close>
\<close>

definition mediaStatusOf :: "jsstring \<Rightarrow> jsstring" where
  "mediaStatusOf statusStr =
     (if statusStr = js ''Completed'' then js ''Completed''
      else if statusStr = js ''Plan to Watch'' then js ''Plan to Watch''
      else js ''Watching'')"

definition mediaItem :: "clock \<Rightarrow> nat \<Rightarrow> jsstring list \<Rightarrow> MediaItem" where
  "mediaItem clk i cols =
     \<lparr> id_me = idOf clk i cols,
       type_me = cols ! 1,
       title_me = cols ! 2,
       status_me = mediaStatusOf (cols ! 3),
       link_me = at cols 4,
       rating_me = (if truthyNum (Number (at cols 5)) then Some (Number (at cols 5)) else None),
       notes_me = at cols 6,
       addedAt_me = addedAtOf clk i cols 7 \<rparr>"

definition mediaRow :: "clock \<Rightarrow> nat \<Rightarrow> jsstring \<Rightarrow> MediaItem option" where
  "mediaRow clk i line =
     (let cols = parseCSVLine line in
      if length cols < 4 then None else Some (mediaItem clk i cols))"

definition parseMediaCSV :: "clock \<Rightarrow> jsstring \<Rightarrow> MediaItem list" where
  "parseMediaCSV clk text = forRows (mediaRow clk) 1 (drop 1 (csvLines text))"

subsection \<open>Work experience\<close>

record ExperienceItem =
  id_ex :: jsstring
  title_ex :: jsstring
  company_ex :: jsstring
  period_ex :: jsstring
  description_ex :: jsstring
  tags_ex :: "jsstring list"

definition experienceHeaders :: "jsstring list" where
  "experienceHeaders = map js [''ID'', ''Title'', ''Company'', ''Period'', ''Description'', ''Tags'']"

definition experienceCells :: "ExperienceItem \<Rightarrow> scalar list" where
  "experienceCells item = [S (id_ex item), S (title_ex item), S (company_ex item), S (period_ex item),
     S (description_ex item), S (joinWith [semicolon] (tags_ex item))]"

definition generateExperienceCSV :: "ExperienceItem list \<Rightarrow> jsstring" where
  "generateExperienceCSV items =
     csvText experienceHeaders (map (\<lambda>item. csvRow (experienceCells item)) items)"

text \<open>
  \<^verbatim>\<open>
    if (cols.length < 5) continue;
    items.push({
      id: cols[0] || Date.now().toString() + i,
      title: cols[1], company: cols[2], period: cols[3], description: cols[4],
      tags: cols[5] ? cols[5].split(';').map(t => t.trim()) : []
    });
  \<close>
\<close>

definition tagsOf :: "jsstring option \<Rightarrow> jsstring list" where
  "tagsOf cell =
     (case cell of
        Some c \<Rightarrow> if c \<noteq> [] then map trim (splitOn [semicolon] c) else []
      | None \<Rightarrow> [])"

definition experienceItem :: "clock \<Rightarrow> nat \<Rightarrow> jsstring list \<Rightarrow> ExperienceItem" where
  "experienceItem clk i cols =
     \<lparr> id_ex = idOf clk i cols,
       title_ex = cols ! 1, company_ex = cols ! 2, period_ex = cols ! 3,
       description_ex = cols ! 4,
       tags_ex = tagsOf (at cols 5) \<rparr>"

definition experienceRow :: "clock \<Rightarrow> nat \<Rightarrow> jsstring \<Rightarrow> ExperienceItem option" where
  "experienceRow clk i line =
     (let cols = parseCSVLine line in
      if length cols < 5 then None else Some (experienceItem clk i cols))"

definition parseExperienceCSV :: "clock \<Rightarrow> jsstring \<Rightarrow> ExperienceItem list" where
  "parseExperienceCSV clk text = forRows (experienceRow clk) 1 (drop 1 (csvLines text))"

subsection \<open>Diary\<close>

record DiaryEntry =
  id_de :: jsstring
  date_de :: jsstring
  content_de :: jsstring
  mood_de :: "jsstring option"
  images_de :: "jsstring list"
  addedAt_de :: number

definition diaryHeaders :: "jsstring list" where
  "diaryHeaders = map js [''ID'', ''Date'', ''Content'', ''Mood'', ''Images(Base64;)'', ''AddedAt'']"



text \<open>
  \<^verbatim>\<open>
    if (cols.length < 3) continue;
    items.push({
      id: cols[0] || Date.now().toString() + i,
      date: cols[1],
      content: cols[2],
      mood: cols[3],
      images: cols[4] ? cols[4].split(';;;') : [],
      addedAt: Number(cols[5]) || Date.now()
    });
  \<close>
\<close>

definition imagesOf :: "jsstring option \<Rightarrow> jsstring list" where
  "imagesOf cell =
     (case cell of
        Some c \<Rightarrow> if c \<noteq> [] then splitOn [semicolon, semicolon, semicolon] c else []
      | None \<Rightarrow> [])"

definition diaryItem :: "clock \<Rightarrow> nat \<Rightarrow> jsstring list \<Rightarrow> DiaryEntry" where
  "diaryItem clk i cols =
     \<lparr> id_de = idOf clk i cols,
       date_de = cols ! 1,
       content_de = cols ! 2,
       mood_de = at cols 3,
       images_de = imagesOf (at cols 4),
       addedAt_de = addedAtOf clk i cols 5 \<rparr>"

definition diaryRow :: "clock \<Rightarrow> nat \<Rightarrow> jsstring \<Rightarrow> DiaryEntry option" where
  "diaryRow clk i line =
     (let cols = parseCSVLine line in
      if length cols < 3 then None else Some (diaryItem clk i cols))"

definition parseDiaryCSV :: "clock \<Rightarrow> jsstring \<Rightarrow> DiaryEntry list" where
  "parseDiaryCSV clk text = forRows (diaryRow clk) 1 (drop 1 (csvLines text))"

section \<open>Merge on import\<close>

text \<open>
  \<open>handleFileChange\<close> of the Japanese section and of the travel section:
  \<^verbatim>\<open>
    const newItems = parseJapaneseCSV(text);
    setItems(prev => {
      const existingWords = new Set(prev.map(i => i.word));
      const filteredNew = newItems.filter(i => !existingWords.has(i.word));
      return [...filteredNew, ...prev];
    });
  \<close>
  and the same with \<open>parseTravelCSV\<close> and \<open>name\<close>.  The state update is the function from
  the held list \<open>prev\<close> to the new list.
\<close>

definition mergeJapanese :: "JapaneseWord list \<Rightarrow> JapaneseWord list \<Rightarrow> JapaneseWord list" where
  "mergeJapanese newItems prev =
     (let existingWords = set (map word_jw prev);
          filteredNew = filter (\<lambda>i. word_jw i \<notin> existingWords) newItems
      in filteredNew @ prev)"

definition importJapanese :: "clock \<Rightarrow> jsstring \<Rightarrow> JapaneseWord list \<Rightarrow> JapaneseWord list" where
  "importJapanese clk text prev = mergeJapanese (parseJapaneseCSV clk text) prev"

definition mergeTravel :: "TravelSpot list \<Rightarrow> TravelSpot list \<Rightarrow> TravelSpot list" where
  "mergeTravel newItems prev =
     (let existingNames = set (map name_ts prev);
          filteredNew = filter (\<lambda>i. name_ts i \<notin> existingNames) newItems
      in filteredNew @ prev)"

definition importTravel :: "clock \<Rightarrow> jsstring \<Rightarrow> TravelSpot list \<Rightarrow> TravelSpot list" where
  "importTravel clk text prev = mergeTravel (parseTravelCSV clk text) prev"

section \<open>Conditions on lines and records\<close>

text \<open>
  A line that \<open>split(/\r?\n/)\<close> gives back unchanged from a text joined with newlines:
  it holds no newline and does not end with a carriage return.
\<close>

definition lineOK :: "jsstring \<Rightarrow> bool" where
  "lineOK l = (newline \<notin> set l \<and> (l = [] \<or> last l \<noteq> creturn))"

text \<open>A line that \<open>filter(l => l.trim())\<close> keeps: some code unit of it is no white space.\<close>

definition nonBlank :: "jsstring \<Rightarrow> bool" where
  "nonBlank l = (\<not> list_all isWhiteSpace l)"

text \<open>
  A number that \<open>Number(String(x)) || Date.now()\<close> gives back: an integer that is not
  zero.  The bound is \<open>Number.MAX_SAFE_INTEGER\<close>, up to which the integers of the model
  are the numbers of JavaScript.
\<close>

definition timestampOK :: "number \<Rightarrow> bool" where
  "timestampOK x = (case x of NaN \<Rightarrow> False | IntNum n \<Rightarrow> n \<noteq> 0 \<and> \<bar>n\<bar> \<le> 2 ^ 53 - 1)"

definition noNewline :: "jsstring \<Rightarrow> bool" where
  "noNewline s = (newline \<notin> set s)"

text \<open>
  A vocabulary record that the CSV text carries unchanged: the id is not empty, no string
  field holds a newline, and \<open>addedAt\<close> is a non-zero integer.
\<close>

definition japaneseOK :: "JapaneseWord \<Rightarrow> bool" where
  "japaneseOK item =
     (id_jw item \<noteq> []
      \<and> list_all noNewline [id_jw item, word_jw item, reading_jw item, meaning_jw item,
           meaningJP_jw item, exampleSentence_jw item, exampleTranslation_jw item]
      \<and> timestampOK (addedAt_jw item))"

text \<open>A number of the model that is a number of JavaScript: \<open>NaN\<close> or a safe integer.\<close>

definition safeNum :: "number \<Rightarrow> bool" where
  "safeNum x = (case x of NaN \<Rightarrow> True | IntNum n \<Rightarrow> \<bar>n\<bar> \<le> 2 ^ 53 - 1)"

text \<open>An optional string field that is present and holds no newline.\<close>

definition presentLine :: "jsstring option \<Rightarrow> bool" where
  "presentLine v = (case v of None \<Rightarrow> False | Some s \<Rightarrow> noNewline s)"

text \<open>
  A travel spot that the CSV text carries unchanged: the id is not empty, the three
  optional string fields are present, no string field holds a newline, \<open>addedAt\<close> is a
  non-zero integer; the rating may be absent.
\<close>

definition travelOK :: "TravelSpot \<Rightarrow> bool" where
  "travelOK item =
     (id_ts item \<noteq> [] \<and> noNewline (id_ts item) \<and> noNewline (name_ts item)
      \<and> presentLine (address_ts item) \<and> presentLine (googleMapsUri_ts item)
      \<and> presentLine (userNotes_ts item)
      \<and> (case rating_ts item of None \<Rightarrow> True | Some x \<Rightarrow> safeNum x)
      \<and> timestampOK (addedAt_ts item))"

definition musicOK :: "MusicItem \<Rightarrow> bool" where
  "musicOK item =
     (id_mu item \<noteq> [] \<and> noNewline (id_mu item) \<and> noNewline (artist_mu item)
      \<and> noNewline (song_mu item) \<and> presentLine (url_mu item) \<and> timestampOK (addedAt_mu item))"

text \<open>
  A media item that the CSV text carries unchanged: as above, the status is one of the
  three status literals, and a rating, when there is one, is a non-zero integer.
\<close>

definition mediaOK :: "MediaItem \<Rightarrow> bool" where
  "mediaOK item =
     (id_me item \<noteq> [] \<and> noNewline (id_me item) \<and> noNewline (type_me item)
      \<and> noNewline (title_me item) \<and> status_me item \<in> set MediaStatus_values
      \<and> presentLine (link_me item) \<and> presentLine (notes_me item)
      \<and> (case rating_me item of None \<Rightarrow> True | Some x \<Rightarrow> timestampOK x)
      \<and> timestampOK (addedAt_me item))"

text \<open>\<open>s.includes(sub)\<close>: \<open>sub\<close> occurs in \<open>s\<close> at some position.\<close>

fun includes_str :: "jsstring \<Rightarrow> jsstring \<Rightarrow> bool" where
  "includes_str [] sub = (sub = [])"
| "includes_str (c # s) sub = (take (length sub) (c # s) = sub \<or> includes_str s sub)"


text \<open>
  A tag that \<open>join(';')\<close>, \<open>split(';')\<close> and \<open>trim()\<close> give back: it holds no semicolon
  and no newline and has no white space at either end.  The list \<open>['']\<close> is joined to
  the empty cell, which is read as the empty list.
\<close>

definition tagOK :: "jsstring \<Rightarrow> bool" where
  "tagOK t = (semicolon \<notin> set t \<and> noNewline t \<and> trim t = t)"

definition experienceOK :: "ExperienceItem \<Rightarrow> bool" where
  "experienceOK item =
     (id_ex item \<noteq> []
      \<and> list_all noNewline [id_ex item, title_ex item, company_ex item, period_ex item,
           description_ex item]
      \<and> list_all tagOK (tags_ex item) \<and> tags_ex item \<noteq> [[]])"

text \<open>
  An image that \<open>join(';;;')\<close> and \<open>split(';;;')\<close> give back: it does not hold the
  separator, does not end with a semicolon, and holds no newline.
\<close>

definition imageOK :: "jsstring \<Rightarrow> bool" where
  "imageOK img =
     (\<not> includes_str img [semicolon, semicolon, semicolon]
      \<and> (img = [] \<or> last img \<noteq> semicolon) \<and> noNewline img)"

definition diaryOK :: "DiaryEntry \<Rightarrow> bool" where
  "diaryOK item =
     (id_de item \<noteq> [] \<and> noNewline (id_de item) \<and> noNewline (date_de item)
      \<and> noNewline (content_de item) \<and> presentLine (mood_de item)
      \<and> list_all imageOK (images_de item) \<and> images_de item \<noteq> [[]]
      \<and> timestampOK (addedAt_de item))"

section \<open>Concrete inputs\<close>

text \<open>A clock that stands still at \<open>t\<close>.\<close>

definition fixedClock :: "int \<Rightarrow> clock" where
  "fixedClock t = (\<lambda>i site. t)"

text \<open>One record of each kind, with a comma and a double quote inside fields.\<close>

definition sampleWord :: JapaneseWord where
  "sampleWord = \<lparr> id_jw = js ''w1'', word_jw = js ''neko'', reading_jw = js ''ne,ko'',
     meaning_jw = js ''cat'', meaningJP_jw = [], exampleSentence_jw = quote # js ''x'',
     exampleTranslation_jw = js ''t'', addedAt_jw = IntNum 5 \<rparr>"

definition sampleSpot :: TravelSpot where
  "sampleSpot = \<lparr> id_ts = js ''t1'', name_ts = js ''Kyoto, Gion'', address_ts = Some (js ''a''),
     status_ts = VISITED, googleMapsUri_ts = Some [], rating_ts = None,
     userNotes_ts = Some (js ''n''), addedAt_ts = IntNum 7 \<rparr>"

definition sampleSong :: MusicItem where
  "sampleSong = \<lparr> id_mu = js ''m1'', artist_mu = js ''a'', song_mu = js ''s'',
     url_mu = Some (js ''u''), addedAt_mu = IntNum 3 \<rparr>"

definition sampleMedia :: MediaItem where
  "sampleMedia = \<lparr> id_me = js ''e1'', type_me = js ''Anime'', title_me = js ''t'',
     status_me = js ''Completed'', link_me = Some [], rating_me = Some (IntNum 4),
     notes_me = Some (js ''n''), addedAt_me = IntNum 9 \<rparr>"

definition sampleExperience :: ExperienceItem where
  "sampleExperience = \<lparr> id_ex = js ''x1'', title_ex = js ''dev'', company_ex = js ''c'',
     period_ex = js ''2020'', description_ex = js ''d'', tags_ex = [js ''go'', js ''rust''] \<rparr>"

definition sampleEntry :: DiaryEntry where
  "sampleEntry = \<lparr> id_de = js ''d1'', date_de = js ''2024-01-01'', content_de = js ''hello'',
     mood_de = Some (js ''ok''), images_de = [js ''data:image/png;base64,AAAA'', js ''BBBB''],
     addedAt_de = IntNum 11 \<rparr>"


text \<open>
  An experience text of a header, the row of \<open>sampleExperience\<close> and a row of two cells.
\<close>

definition shortRowText :: jsstring where
  "shortRowText = generateExperienceCSV [sampleExperience] @ newline # js ''x,y''"

text \<open>A travel text whose rows have the status cells \<open>unknown\<close> and \<open>Visited\<close>.\<close>

definition statusText :: jsstring where
  "statusText = js ''ID,Name,Address,Status'' @ newline # js ''1,Kyoto,a,unknown''
     @ newline # js ''2,Nara,b,Visited''"


text \<open>A diary text whose one row has six cells, the mood and images cells empty.\<close>

definition emptyMoodText :: jsstring where
  "emptyMoodText = js ''ID,Date,Content,Mood,Images,AddedAt'' @ newline # js ''1,2024-01-01,hello,,,5''"


text \<open>Rows of eight cells with empty optional cells, for the travel and the media schema.\<close>

definition emptyCellsLine :: jsstring where
  "emptyCellsLine = js ''1,name,Anime,Watching,,,,5''"

text \<open>The sample vocabulary record under another id: the same word, a different record.\<close>

definition sameWord :: JapaneseWord where
  "sameWord = sampleWord \<lparr> id_jw := js ''w2'' \<rparr>"

text \<open>A media text whose one row has the type cell \<open>Podcast\<close> and the status cell \<open>Paused\<close>.\<close>

definition podcastText :: jsstring where
  "podcastText = js ''ID,Type,Title,Status'' @ newline # js ''1,Podcast,t,Paused''"

text \<open>A text of a header and two rows of seven cells, the id cell of both empty.\<close>

definition noIdText :: jsstring where
  "noIdText = js ''ID,A,B,C,D,E,F'' @ newline # js '',a,b,c,d,e,f'' @ newline # js '',a,b,c,d,e,f''"

section \<open>Escaping and line parsing are inverse\<close>

lemma comma_neq_quote [simp]: "comma \<noteq> quote" "quote \<noteq> comma"
  by (simp_all add: comma_def quote_def)

lemma loop_literal:
  "c \<noteq> quote \<Longrightarrow> c \<noteq> comma \<or> inQuotes \<Longrightarrow>
   parseCSVLine_loop (c # rest) result current inQuotes
     = parseCSVLine_loop rest result (current @ [c]) inQuotes"
  by auto

lemma loop_separator:
  "parseCSVLine_loop (comma # rest) result current False = parseCSVLine_loop rest (result @ [current]) [] False"
  by simp

lemma loop_open_quote:
  "parseCSVLine_loop (quote # rest) result current False = parseCSVLine_loop rest result current True"
  by (cases rest) simp_all

lemma loop_doubled_quote:
  "parseCSVLine_loop (quote # quote # rest) result current True
     = parseCSVLine_loop rest result (current @ [quote]) True"
  by simp

lemma loop_close_quote:
  "rest = [] \<or> hd rest \<noteq> quote \<Longrightarrow>
   parseCSVLine_loop (quote # rest) result current True = parseCSVLine_loop rest result current False"
  by (cases rest) auto

lemmas loop_steps = loop_literal loop_separator loop_open_quote loop_doubled_quote loop_close_quote

declare parseCSVLine_loop.simps(2) [simp del]

lemma parse_plain_run:
  "quote \<notin> set s \<Longrightarrow> comma \<notin> set s \<Longrightarrow>
   parseCSVLine_loop (s @ rest) result current False = parseCSVLine_loop rest result (current @ s) False"
proof (induction s arbitrary: current)
  case Nil
  then show ?case by simp
next
  case (Cons c s)
  then have "c \<noteq> quote" "c \<noteq> comma" by auto
  then show ?case using Cons by (simp add: loop_literal)
qed

lemma doubleQuotes_Cons:
  "doubleQuotes (c # s) = (if c = quote then [quote, quote] else [c]) @ doubleQuotes s"
  by (simp add: doubleQuotes_def)

lemma parse_quoted_body:
  "rest = [] \<or> hd rest \<noteq> quote \<Longrightarrow>
   parseCSVLine_loop (doubleQuotes s @ quote # rest) result current True
     = parseCSVLine_loop rest result (current @ s) False"
proof (induction s arbitrary: current)
  case Nil
  then show ?case by (simp add: doubleQuotes_def loop_close_quote)
next
  case (Cons c s)
  show ?case
  proof (cases "c = quote")
    case True
    then show ?thesis
      using Cons.IH [OF Cons.prems, of "current @ [quote]"]
      by (simp add: doubleQuotes_Cons loop_doubled_quote)
  next
    case False
    then show ?thesis
      using Cons.IH [OF Cons.prems, of "current @ [c]"]
      by (simp add: doubleQuotes_Cons loop_literal)
  qed
qed

lemma parse_escaped_field:
  assumes "v \<noteq> Undefined" and "rest = [] \<or> hd rest \<noteq> quote"
  shows "parseCSVLine_loop (escapeCSV v @ rest) result current False
           = parseCSVLine_loop rest result (current @ String_of v) False"
proof (cases "comma \<in> set (String_of v) \<or> newline \<in> set (String_of v) \<or> quote \<in> set (String_of v)")
  case True
  then have "escapeCSV v = quote # doubleQuotes (String_of v) @ [quote]"
    using assms(1) by (simp add: escapeCSV_def Let_def)
  moreover have "parseCSVLine_loop (quote # doubleQuotes (String_of v) @ quote # rest) result current False
      = parseCSVLine_loop (doubleQuotes (String_of v) @ quote # rest) result current True"
    by (rule loop_open_quote)
  ultimately show ?thesis using parse_quoted_body [OF assms(2)] by simp
next
  case False
  then have "escapeCSV v = String_of v"
    using assms(1) by (simp add: escapeCSV_def Let_def)
  then show ?thesis using False parse_plain_run by simp
qed

text \<open>
  C2.  For every string \<open>s\<close>, the escaped form of \<open>s\<close> parsed as one CSV line is exactly
  \<open>[s]\<close>; \<open>escapeCSV\<close> wraps \<open>s\<close> in double quotes and doubles the quotes inside exactly
  when \<open>s\<close> holds a comma, a double quote or a newline, and leaves \<open>s\<close> as it is
  otherwise; the field \<open>a,b"c\nd\<close> escapes to \<open>"a,b""c\nd"\<close> and parses back to itself.
\<close>

theorem escape_parse_roundtrip:
  "parseCSVLine (escapeCSV (S s)) = [s]
   \<and> escapeCSV (S s) =
       (if comma \<in> set s \<or> quote \<in> set s \<or> newline \<in> set s
        then quote # doubleQuotes s @ [quote] else s)
   \<and> escapeCSV (S (js ''a,b'' @ quote # js ''c'' @ newline # js ''d''))
       = quote # js ''a,b'' @ quote # quote # js ''c'' @ newline # js ''d'' @ [quote]
   \<and> parseCSVLine (quote # js ''a,b'' @ quote # quote # js ''c'' @ newline # js ''d'' @ [quote])
       = [js ''a,b'' @ quote # js ''c'' @ newline # js ''d'']"
proof -
  have gen: "parseCSVLine (escapeCSV (S t)) = [t]" for t
    using parse_escaped_field [of "S t" "[]" "[]" "[]"]
    by (simp add: parseCSVLine_def String_of_def)
  have shape: "escapeCSV (S t) =
       (if comma \<in> set t \<or> quote \<in> set t \<or> newline \<in> set t
        then quote # doubleQuotes t @ [quote] else t)" for t
    by (auto simp: escapeCSV_def String_of_def Let_def)
  let ?f = "js ''a,b'' @ quote # js ''c'' @ newline # js ''d''"
  have esc: "escapeCSV (S ?f) = quote # js ''a,b'' @ quote # quote # js ''c'' @ newline # js ''d'' @ [quote]"
    by (simp add: shape doubleQuotes_def js_def quote_def comma_def newline_def)
  have "parseCSVLine (escapeCSV (S ?f)) = [?f]" by (rule gen)
  then show ?thesis using gen shape esc by simp
qed

section \<open>Rows and lines of a generated text\<close>

lemma escapeCSV_Undefined [simp]: "escapeCSV Undefined = []"
  by (simp add: escapeCSV_def)

lemma parse_cell:
  assumes "rest = [] \<or> hd rest \<noteq> quote"
  shows "parseCSVLine_loop (escapeCSV v @ rest) result current False
           = parseCSVLine_loop rest result (current @ cellText v) False"
proof (cases "v = Undefined")
  case True
  then show ?thesis by (simp add: cellText_def)
next
  case False
  then show ?thesis using parse_escaped_field [OF False assms] by (simp add: cellText_def)
qed

lemma parse_cells_loop:
  "parseCSVLine_loop (joinWith [comma] (map escapeCSV (v # vs))) result [] False
     = result @ map cellText (v # vs)"
proof (induction vs arbitrary: v result)
  case Nil
  show ?case using parse_cell [of "[]" v result "[]"] by simp
next
  case (Cons w ws)
  have "parseCSVLine_loop (escapeCSV v @ comma # joinWith [comma] (map escapeCSV (w # ws))) result [] False
      = parseCSVLine_loop (comma # joinWith [comma] (map escapeCSV (w # ws))) result ([] @ cellText v) False"
    by (rule parse_cell) simp
  then show ?case using Cons.IH [of w "result @ [cellText v]"]
    by (simp add: loop_separator)
qed

lemma parseCSVLine_csvRow:
  assumes "cells \<noteq> []"
  shows "parseCSVLine (csvRow cells) = map cellText cells"
proof (cases cells)
  case Nil
  then show ?thesis using assms by simp
next
  case (Cons v vs)
  then show ?thesis using parse_cells_loop [of v vs "[]"] by (simp add: parseCSVLine_def csvRow_def)
qed

lemma splitLines_loop_last:
  "newline \<notin> set l \<Longrightarrow> splitLines_loop l current = [current @ l]"
proof (induction l arbitrary: current)
  case Nil
  then show ?case by simp
next
  case (Cons c l)
  then show ?case by (cases l) auto
qed

lemma splitLines_loop_line:
  "newline \<notin> set l \<Longrightarrow> l = [] \<or> last l \<noteq> creturn \<Longrightarrow>
   splitLines_loop (l @ newline # rest) current = (current @ l) # splitLines_loop rest []"
proof (induction l arbitrary: current)
  case Nil
  then show ?case by simp
next
  case (Cons c l)
  show ?case
  proof (cases l)
    case Nil
    then show ?thesis using Cons.prems by simp
  next
    case (Cons d l')
    then show ?thesis using Cons.prems Cons.IH [of "current @ [c]"] by auto
  qed
qed

lemma splitLines_loop_join:
  "\<forall>l \<in> set (x # ls). lineOK l \<Longrightarrow> splitLines_loop (joinWith [newline] (x # ls)) [] = x # ls"
proof (induction ls arbitrary: x)
  case Nil
  then show ?case by (simp add: splitLines_loop_last lineOK_def)
next
  case (Cons y ls)
  then show ?case
    using splitLines_loop_line [of x "joinWith [newline] (y # ls)" "[]"]
    by (simp add: lineOK_def)
qed

lemma trim_eq_Nil: "(trim l = []) = list_all isWhiteSpace l"
proof -
  have "(trim l = []) = (dropWhile isWhiteSpace (rev (dropWhile isWhiteSpace l)) = [])"
    by (simp add: trim_def)
  also have "\<dots> = (\<forall>c \<in> set (dropWhile isWhiteSpace l). isWhiteSpace c)"
    by (simp add: dropWhile_eq_Nil_conv)
  also have "\<dots> = (\<forall>c \<in> set l. isWhiteSpace c)"
  proof
    assume h: "\<forall>c \<in> set (dropWhile isWhiteSpace l). isWhiteSpace c"
    have "dropWhile isWhiteSpace l = []"
    proof (rule ccontr)
      assume "dropWhile isWhiteSpace l \<noteq> []"
      then have "\<not> isWhiteSpace (hd (dropWhile isWhiteSpace l))"
        by (rule hd_dropWhile)
      moreover have "hd (dropWhile isWhiteSpace l) \<in> set (dropWhile isWhiteSpace l)"
        using \<open>dropWhile isWhiteSpace l \<noteq> []\<close> by simp
      ultimately show False using h by blast
    qed
    then show "\<forall>c \<in> set l. isWhiteSpace c" by (simp add: dropWhile_eq_Nil_conv)
  next
    assume "\<forall>c \<in> set l. isWhiteSpace c"
    then show "\<forall>c \<in> set (dropWhile isWhiteSpace l). isWhiteSpace c"
      using set_dropWhileD by fastforce
  qed
  finally show ?thesis by (simp add: list_all_iff)
qed

lemma csvLines_keep: "(trim l \<noteq> []) = nonBlank l"
  by (simp add: trim_eq_Nil nonBlank_def)

lemma filter_nonBlank: "\<forall>l \<in> set ls. nonBlank l \<Longrightarrow> filter (\<lambda>l. trim l \<noteq> []) ls = ls"
  by (simp add: csvLines_keep)

lemma csvText_as_lines:
  "csvText headers rows = joinWith [newline] ((BOM # joinWith [comma] headers) # rows)"
  by (cases rows) (simp_all add: csvText_def)

lemma csvLines_csvText:
  assumes "lineOK (BOM # joinWith [comma] headers)" and "nonBlank (BOM # joinWith [comma] headers)"
    and "\<forall>l \<in> set rows. lineOK l \<and> nonBlank l"
  shows "drop 1 (csvLines (csvText headers rows)) = rows"
proof -
  let ?h = "BOM # joinWith [comma] headers"
  have "splitLines (csvText headers rows) = ?h # rows"
    unfolding csvText_as_lines splitLines_def
    by (rule splitLines_loop_join) (use assms in auto)
  then have "csvLines (csvText headers rows) = filter (\<lambda>l. trim l \<noteq> []) (?h # rows)"
    by (simp add: csvLines_def)
  moreover have "filter (\<lambda>l. trim l \<noteq> []) rows = rows"
    using assms(3) by (simp add: filter_nonBlank)
  ultimately show ?thesis using assms(2) by (simp add: csvLines_keep)
qed

lemma forRows_all:
  "\<forall>item \<in> set items. \<forall>i. body i (line item) = Some item \<Longrightarrow>
   forRows body i (map line items) = items"
  by (induction items arbitrary: i) simp_all

subsection \<open>Decimal digits\<close>

lemma unat_digitChar: "d < 10 \<Longrightarrow> unat (digitChar d) = 48 + d"
  by (simp only: digitChar_def unat_of_nat) simp

lemma isDigit_unat: "isDigit c = (48 \<le> unat c \<and> unat c \<le> 57)"
  by (simp add: isDigit_def word_le_nat_alt)

lemma isDigit_digitChar: "d < 10 \<Longrightarrow> isDigit (digitChar d)"
  by (simp add: isDigit_unat unat_digitChar)

lemma digitVal_digitChar: "d < 10 \<Longrightarrow> digitVal (digitChar d) = d"
  by (simp add: digitVal_def unat_digitChar)

lemma isDigit_not_special:
  "isDigit c \<Longrightarrow> \<not> isWhiteSpace c \<and> c \<noteq> minus_sign \<and> c \<noteq> plus_sign \<and> c \<noteq> creturn
     \<and> c \<noteq> newline \<and> c \<noteq> comma \<and> c \<noteq> quote"
  unfolding isDigit_unat isWhiteSpace_def minus_sign_def plus_sign_def creturn_def newline_def comma_def quote_def
  by (auto simp: word_le_nat_alt)

lemma digitsOf_digits: "list_all isDigit (digitsOf n) \<and> digitsOf n \<noteq> []"
proof (induction n rule: digitsOf.induct)
  case (1 n)
  then show ?case by (subst (1 2) digitsOf.simps) (auto simp: isDigit_digitChar)
qed

lemma digitsValue_snoc: "digitsValue (ds @ [c]) = 10 * digitsValue ds + digitVal c"
  by (simp add: digitsValue_def)

lemma digitsValue_digitsOf: "digitsValue (digitsOf n) = n"
proof (induction n rule: digitsOf.induct)
  case (1 n)
  show ?case
  proof (cases "n < 10")
    case True
    then show ?thesis by (subst digitsOf.simps) (simp add: digitsValue_def digitVal_digitChar)
  next
    case False
    then show ?thesis using 1
      by (subst digitsOf.simps) (simp add: digitsValue_snoc digitVal_digitChar)
  qed
qed

lemma trim_unchanged:
  assumes "s \<noteq> []" "\<not> isWhiteSpace (hd s)" "\<not> isWhiteSpace (last s)"
  shows "trim s = s"
proof -
  have "dropWhile isWhiteSpace s = s"
    using assms(1,2) by (cases s) simp_all
  moreover have "dropWhile isWhiteSpace (rev s) = rev s"
    using assms(1,3) by (cases "rev s") (simp_all add: last_rev [symmetric] hd_rev)
  ultimately show ?thesis by (simp add: trim_def)
qed

lemma digitsOf_ends:
  "isDigit (hd (digitsOf n)) \<and> isDigit (last (digitsOf n))"
  using digitsOf_digits [of n] by (cases "digitsOf n") (auto simp: list_all_iff)

lemma trim_digitsOf: "trim (digitsOf n) = digitsOf n"
  using digitsOf_ends [of n] digitsOf_digits [of n] isDigit_not_special
  by (intro trim_unchanged) auto

lemma trim_minus_digitsOf: "trim (minus_sign # digitsOf n) = minus_sign # digitsOf n"
proof (rule trim_unchanged)
  show "\<not> isWhiteSpace (hd (minus_sign # digitsOf n))"
    by (simp add: isWhiteSpace_def minus_sign_def)
  show "\<not> isWhiteSpace (last (minus_sign # digitsOf n))"
    using digitsOf_ends [of n] digitsOf_digits [of n] isDigit_not_special by auto
qed simp

lemma isDigits_digitsOf: "isDigits (digitsOf n)"
  using digitsOf_digits [of n] by (simp add: isDigits_def)

lemma Number_numToString_int: "Number (Some (numToString (IntNum n))) = IntNum n"
proof (cases "n < 0")
  case True
  then show ?thesis
    by (simp add: Number_def numToString_def trim_minus_digitsOf isDigits_digitsOf digitsValue_digitsOf)
next
  case False
  obtain c ds where cd: "digitsOf (nat n) = c # ds"
    using digitsOf_digits [of "nat n"] by (cases "digitsOf (nat n)") auto
  then have "isDigit c" using digitsOf_digits [of "nat n"] by simp
  then have "c \<noteq> minus_sign" "c \<noteq> plus_sign" using isDigit_not_special by auto
  moreover have "isDigits (c # ds)" using isDigits_digitsOf [of "nat n"] cd by simp
  moreover have "digitsValue (c # ds) = nat n" using digitsValue_digitsOf [of "nat n"] cd by simp
  moreover have "trim (c # ds) = c # ds" using trim_digitsOf [of "nat n"] cd by simp
  ultimately show ?thesis using False cd
    by (simp add: Number_def numToString_def)
qed

subsection \<open>Generated rows as lines\<close>

lemma set_doubleQuotes: "set (doubleQuotes s) = set s"
  by (induction s) (auto simp: doubleQuotes_Cons doubleQuotes_def)

lemma set_escapeCSV: "set (escapeCSV v) \<subseteq> insert quote (set (cellText v))"
  by (auto simp: escapeCSV_def cellText_def Let_def set_doubleQuotes)

lemma set_joinWith: "set (joinWith sep xs) \<subseteq> set sep \<union> \<Union> (set ` set xs)"
  by (induction sep xs rule: joinWith.induct) auto

lemma newline_csvRow:
  assumes "\<forall>v \<in> set cells. newline \<notin> set (cellText v)"
  shows "newline \<notin> set (csvRow cells)"
proof
  assume "newline \<in> set (csvRow cells)"
  then have "newline \<in> set [comma] \<union> \<Union> (set ` set (map escapeCSV cells))"
    using set_joinWith [of "[comma]" "map escapeCSV cells"] by (auto simp: csvRow_def)
  then obtain v where "v \<in> set cells" "newline \<in> set (escapeCSV v)"
    by (auto simp: comma_def newline_def)
  then have "newline \<in> set (cellText v)"
    using set_escapeCSV [of v] by (auto simp: newline_def quote_def)
  then show False using assms \<open>v \<in> set cells\<close> by blast
qed

lemma joinWith_snoc:
  "xs \<noteq> [] \<Longrightarrow> joinWith sep (xs @ [x]) = joinWith sep xs @ sep @ x"
  by (induction sep xs rule: joinWith.induct) auto

lemma comma_in_csvRow: "2 \<le> length cells \<Longrightarrow> comma \<in> set (csvRow cells)"
proof -
  assume "2 \<le> length cells"
  then obtain v w ws where "cells = v # w # ws"
    by (cases cells; cases "tl cells") auto
  then show ?thesis by (simp add: csvRow_def)
qed

lemma nonBlank_csvRow: "2 \<le> length cells \<Longrightarrow> nonBlank (csvRow cells)"
proof -
  assume "2 \<le> length cells"
  then have "comma \<in> set (csvRow cells)" by (rule comma_in_csvRow)
  moreover have "\<not> isWhiteSpace comma" by (simp add: isWhiteSpace_def comma_def)
  ultimately show ?thesis unfolding nonBlank_def list_all_iff by blast
qed

lemma last_csvRow:
  assumes "2 \<le> length cells" "csvRow cells \<noteq> []"
  shows "last (csvRow cells) = (if escapeCSV (last cells) = [] then comma else last (escapeCSV (last cells)))"
proof -
  have "cells \<noteq> []" using assms(1) by auto
  then have "cells = butlast cells @ [last cells]" by simp
  moreover have "butlast cells \<noteq> []"
    using assms(1) by (cases cells; cases "tl cells") auto
  ultimately obtain vs v where c: "cells = vs @ [v]" "vs \<noteq> []" by blast
  have "csvRow cells = joinWith [comma] (map escapeCSV vs) @ [comma] @ escapeCSV v"
    using c joinWith_snoc [of "map escapeCSV vs" "[comma]" "escapeCSV v"] by (simp add: csvRow_def)
  then show ?thesis using c by simp
qed

lemma last_escapeCSV:
  "escapeCSV v \<noteq> [] \<Longrightarrow> last (escapeCSV v) = quote \<or> last (escapeCSV v) = last (cellText v)"
  by (auto simp: escapeCSV_def cellText_def Let_def)

lemma lineOK_csvRow:
  assumes "2 \<le> length cells" "\<forall>v \<in> set cells. newline \<notin> set (cellText v)"
    and "cellText (last cells) = [] \<or> last (cellText (last cells)) \<noteq> creturn"
  shows "lineOK (csvRow cells)"
proof -
  have nonempty: "csvRow cells \<noteq> []" using comma_in_csvRow [OF assms(1)] by auto
  have "last (csvRow cells) \<noteq> creturn"
  proof (cases "escapeCSV (last cells) = []")
    case True
    then show ?thesis using last_csvRow [OF assms(1) nonempty] by (simp add: comma_def creturn_def)
  next
    case False
    have "cellText (last cells) \<noteq> []"
      using False by (auto simp: escapeCSV_def cellText_def Let_def split: if_splits)
    then show ?thesis
      using False last_csvRow [OF assms(1) nonempty] last_escapeCSV [OF False] assms(3)
      by (auto simp: quote_def creturn_def)
  qed
  then show ?thesis using newline_csvRow [OF assms(2)] by (simp add: lineOK_def)
qed

section \<open>Generate then parse, adapter by adapter\<close>

lemma numToString_last: "numToString x \<noteq> [] \<and> last (numToString x) \<noteq> creturn \<and> newline \<notin> set (numToString x)"
proof (cases x)
  case NaN
  then show ?thesis by (simp add: numToString_def js_def creturn_def newline_def)
next
  case (IntNum n)
  have d: "digitsOf k \<noteq> [] \<and> last (digitsOf k) \<noteq> creturn \<and> newline \<notin> set (digitsOf k)" for k
    using digitsOf_digits [of k] digitsOf_ends [of k] isDigit_not_special
    by (auto simp: list_all_iff)
  show ?thesis using IntNum d [of "nat n"] d [of "nat (- n)"]
    by (auto simp: numToString_def minus_sign_def newline_def)
qed

lemma cellText_simps [simp]:
  "cellText (S s) = s" "cellText (N x) = numToString x" "cellText Undefined = []"
  by (simp_all add: cellText_def String_of_def)

lemma at_simps [simp]:
  "at (x # xs) 0 = Some x" "at [] k = None" "at (x # xs) (Suc k) = at xs k"
  by (simp_all add: at_def)

lemma addedAtOf_generated:
  "timestampOK x \<Longrightarrow> at cols k = Some (numToString x) \<Longrightarrow> addedAtOf clk i cols k = x"
  by (cases x) (simp_all add: addedAtOf_def timestampOK_def Number_numToString_int truthyNum_def)

lemma idOf_present: "at cols 0 = Some c \<Longrightarrow> c \<noteq> [] \<Longrightarrow> idOf clk i cols = c"
  by (simp add: idOf_def)

lemma japaneseRow_generated:
  assumes "japaneseOK item"
  shows "japaneseRow clk i (csvRow (japaneseCells item)) = Some item"
proof -
  have cols: "parseCSVLine (csvRow (japaneseCells item)) =
      [id_jw item, word_jw item, reading_jw item, meaning_jw item, meaningJP_jw item,
       exampleSentence_jw item, exampleTranslation_jw item, numToString (addedAt_jw item)]"
    by (subst parseCSVLine_csvRow) (simp_all add: japaneseCells_def)
  show ?thesis
    using assms
    by (simp add: japaneseRow_def japaneseItem_def cols japaneseOK_def idOf_present addedAtOf_generated numeral_eq_Suc)
qed

lemma japaneseLine_ok:
  assumes "japaneseOK item"
  shows "lineOK (csvRow (japaneseCells item)) \<and> nonBlank (csvRow (japaneseCells item))"
proof -
  have "lineOK (csvRow (japaneseCells item))"
    using assms numToString_last [of "addedAt_jw item"]
    by (intro lineOK_csvRow) (auto simp: japaneseCells_def japaneseOK_def noNewline_def)
  moreover have "nonBlank (csvRow (japaneseCells item))"
    by (rule nonBlank_csvRow) (simp add: japaneseCells_def)
  ultimately show ?thesis by simp
qed

lemma japaneseHeader_ok:
  "lineOK (BOM # joinWith [comma] japaneseHeaders) \<and> nonBlank (BOM # joinWith [comma] japaneseHeaders)"
  by (simp add: japaneseHeaders_def js_def lineOK_def nonBlank_def isWhiteSpace_def BOM_def comma_def
      creturn_def newline_def)

lemma japanese_roundtrip:
  assumes "\<forall>item \<in> set items. japaneseOK item"
  shows "parseJapaneseCSV clk (generateJapaneseCSV items) = items"
proof -
  let ?rows = "map (\<lambda>item. csvRow (japaneseCells item)) items"
  have "drop 1 (csvLines (csvText japaneseHeaders ?rows)) = ?rows"
    using japaneseHeader_ok japaneseLine_ok assms by (intro csvLines_csvText) auto
  then show ?thesis
    using assms japaneseRow_generated
    by (simp add: parseJapaneseCSV_def generateJapaneseCSV_def forRows_all)
qed

lemma presentLine_Some: "presentLine v \<Longrightarrow> \<exists>s. v = Some s \<and> newline \<notin> set s"
  by (cases v) (simp_all add: presentLine_def noNewline_def)

lemma cellText_opt [simp]:
  "cellText (optS (Some s)) = s" "cellText (optS None) = []"
  "cellText (optN (Some x)) = numToString x" "cellText (optN None) = []"
  by (simp_all add: optS_def optN_def)

lemma header_ok:
  "lineOK (BOM # joinWith [comma] travelHeaders) \<and> nonBlank (BOM # joinWith [comma] travelHeaders)"
  "lineOK (BOM # joinWith [comma] musicHeaders) \<and> nonBlank (BOM # joinWith [comma] musicHeaders)"
  "lineOK (BOM # joinWith [comma] mediaHeaders) \<and> nonBlank (BOM # joinWith [comma] mediaHeaders)"
  "lineOK (BOM # joinWith [comma] experienceHeaders) \<and> nonBlank (BOM # joinWith [comma] experienceHeaders)"
  "lineOK (BOM # joinWith [comma] diaryHeaders) \<and> nonBlank (BOM # joinWith [comma] diaryHeaders)"
  by (simp_all add: travelHeaders_def musicHeaders_def mediaHeaders_def experienceHeaders_def
      diaryHeaders_def js_def lineOK_def nonBlank_def isWhiteSpace_def BOM_def comma_def
      creturn_def newline_def)

subsection \<open>Music\<close>




subsection \<open>Travel\<close>

lemma travelStatus_back: "travelStatusOf (Some (TravelStatus_value st)) = st"
  by (cases st) (simp_all add: travelStatusOf_def TravelStatus_value_def js_def visited_zh_def visited_ja_def)

lemma travelStatus_line: "newline \<notin> set (TravelStatus_value st)"
  by (cases st) (simp_all add: TravelStatus_value_def js_def newline_def)

lemma Number_numToString: "Number (Some (numToString x)) = x"
proof (cases x)
  case NaN
  have "trim (js ''NaN'') = js ''NaN''"
    by (rule trim_unchanged) (simp_all add: js_def isWhiteSpace_def)
  then show ?thesis using NaN
    by (simp add: Number_def numToString_def) (simp add: js_def isDigits_def isDigit_def minus_sign_def plus_sign_def)
next
  case (IntNum n)
  then show ?thesis by (simp add: Number_numToString_int)
qed

lemma travelRow_generated:
  assumes "travelOK item"
  shows "travelRow clk i (csvRow (travelCells item)) = Some item"
proof -
  obtain a g u where f: "address_ts item = Some a" "googleMapsUri_ts item = Some g" "userNotes_ts item = Some u"
    using assms presentLine_Some unfolding travelOK_def by blast
  have cols: "parseCSVLine (csvRow (travelCells item)) =
      [id_ts item, name_ts item, a, TravelStatus_value (status_ts item), g,
       cellText (optN (rating_ts item)), u, numToString (addedAt_ts item)]"
    by (subst parseCSVLine_csvRow) (simp_all add: travelCells_def f)
  have rating: "(case Some (cellText (optN (rating_ts item))) of
                   Some c \<Rightarrow> if c \<noteq> [] then Some (Number (Some c)) else None
                 | None \<Rightarrow> None) = rating_ts item"
    using numToString_last by (cases "rating_ts item") (simp_all add: Number_numToString)
  show ?thesis
    using assms f rating
    by (simp add: travelRow_def travelItem_def cols travelOK_def idOf_present addedAtOf_generated numeral_eq_Suc
        travelStatus_back)
qed

lemma travelLine_ok:
  assumes "travelOK item"
  shows "lineOK (csvRow (travelCells item)) \<and> nonBlank (csvRow (travelCells item))"
proof -
  obtain a g u where f: "address_ts item = Some a" "googleMapsUri_ts item = Some g" "userNotes_ts item = Some u"
      "newline \<notin> set a" "newline \<notin> set g" "newline \<notin> set u"
    using assms presentLine_Some unfolding travelOK_def by metis
  have r: "newline \<notin> set (cellText (optN (rating_ts item)))"
    using numToString_last by (cases "rating_ts item") simp_all
  have "lineOK (csvRow (travelCells item))"
    using assms f r numToString_last [of "addedAt_ts item"] travelStatus_line
    by (intro lineOK_csvRow) (auto simp: travelCells_def travelOK_def noNewline_def)
  moreover have "nonBlank (csvRow (travelCells item))"
    by (rule nonBlank_csvRow) (simp add: travelCells_def)
  ultimately show ?thesis by simp
qed

lemma travel_roundtrip:
  assumes "\<forall>item \<in> set items. travelOK item"
  shows "parseTravelCSV clk (generateTravelCSV items) = items"
proof -
  let ?rows = "map (\<lambda>item. csvRow (travelCells item)) items"
  have "drop 1 (csvLines (csvText travelHeaders ?rows)) = ?rows"
    using header_ok(1) travelLine_ok assms by (intro csvLines_csvText) auto
  then show ?thesis
    using assms travelRow_generated
    by (simp add: parseTravelCSV_def generateTravelCSV_def forRows_all)
qed

subsection \<open>Entertainment\<close>





subsection \<open>Splitting a joined list\<close>











subsection \<open>Work experience\<close>







subsection \<open>Diary\<close>








section \<open>The claims\<close>

subsection \<open>C1: generate followed by parse\<close>



lemma samples_ok:
  "japaneseOK sampleWord" "travelOK sampleSpot" "musicOK sampleSong" "mediaOK sampleMedia"
  "experienceOK sampleExperience" "diaryOK sampleEntry"
  by code_simp+


subsection \<open>The parse functions as filter and map over the numbered lines\<close>

lemma forRows_guard:
  assumes "\<And>i l. body i l = (if n \<le> length (parseCSVLine l) then Some (mk i (parseCSVLine l)) else None)"
  shows "forRows body i ls =
         map (\<lambda>(i, l). mk i (parseCSVLine l))
           (filter (\<lambda>(i, l). n \<le> length (parseCSVLine l)) (enumerate i ls))"
  by (induction ls arbitrary: i) (simp_all add: assms)

lemma rows_characterised:
  "parseJapaneseCSV clk text =
     map (\<lambda>(i, l). japaneseItem clk i (parseCSVLine l))
       (filter (\<lambda>(i, l). 7 \<le> length (parseCSVLine l)) (enumerate 1 (drop 1 (csvLines text))))"
  "parseTravelCSV clk text =
     map (\<lambda>(i, l). travelItem clk i (parseCSVLine l))
       (filter (\<lambda>(i, l). 3 \<le> length (parseCSVLine l)) (enumerate 1 (drop 1 (csvLines text))))"
  "parseMusicCSV clk text =
     map (\<lambda>(i, l). musicItem clk i (parseCSVLine l))
       (filter (\<lambda>(i, l). 3 \<le> length (parseCSVLine l)) (enumerate 1 (drop 1 (csvLines text))))"
  "parseMediaCSV clk text =
     map (\<lambda>(i, l). mediaItem clk i (parseCSVLine l))
       (filter (\<lambda>(i, l). 4 \<le> length (parseCSVLine l)) (enumerate 1 (drop 1 (csvLines text))))"
  "parseExperienceCSV clk text =
     map (\<lambda>(i, l). experienceItem clk i (parseCSVLine l))
       (filter (\<lambda>(i, l). 5 \<le> length (parseCSVLine l)) (enumerate 1 (drop 1 (csvLines text))))"
  "parseDiaryCSV clk text =
     map (\<lambda>(i, l). diaryItem clk i (parseCSVLine l))
       (filter (\<lambda>(i, l). 3 \<le> length (parseCSVLine l)) (enumerate 1 (drop 1 (csvLines text))))"
  unfolding parseJapaneseCSV_def parseTravelCSV_def parseMusicCSV_def parseMediaCSV_def
    parseExperienceCSV_def parseDiaryCSV_def
  by (rule forRows_guard, simp add: japaneseRow_def travelRow_def musicRow_def mediaRow_def
      experienceRow_def diaryRow_def Let_def not_less)+

lemma snd_filter_enumerate:
  "map snd (filter (\<lambda>(i, l). P l) (enumerate i ls)) = filter P ls"
  by (induction ls arbitrary: i) simp_all

lemma map_rows_by_line:
  "map (\<lambda>(i, l). g l) (filter (\<lambda>(i, l). P l) (enumerate i ls)) = map g (filter P ls)"
proof -
  have "map (\<lambda>(i, l). g l) (filter (\<lambda>(i, l). P l) (enumerate i ls))
      = map g (map snd (filter (\<lambda>(i, l). P l) (enumerate i ls)))"
    by (simp add: case_prod_unfold comp_def)
  then show ?thesis by (simp only: snd_filter_enumerate)
qed

lemma rows_via_cols:
  "map (\<lambda>(i, l). mk i (parseCSVLine l)) (filter (\<lambda>(i, l). n \<le> length (parseCSVLine l)) (enumerate i ls))
   = map (\<lambda>(i, cols). mk i cols) (filter (\<lambda>(i, cols). n \<le> length cols) (enumerate i (map parseCSVLine ls)))"
  by (induction ls arbitrary: i) simp_all

lemma tags_go_rust: "tagsOf (Some (js ''go;rust'')) = [js ''go'', js ''rust'']"
  by code_simp

subsection \<open>C3: short rows\<close>

text \<open>
  C3.  For every input text and each adapter, the parse function returns exactly the
  records built from the data lines whose parsed cell count reaches the adapter's minimum
  (7, 3, 3, 4, 5, 3), in line order and each with its line index; a line with fewer
  cells contributes nothing.  The parse functions are total: no row makes one of them
  fail.  In \<open>shortRowText\<close> the second data row has two cells, below the minimum of
  five of the experience schema, and the result is the record of the first row alone.
\<close>

theorem short_rows_skipped:
  "parseJapaneseCSV clk text =
     map (\<lambda>(i, l). japaneseItem clk i (parseCSVLine l))
       (filter (\<lambda>(i, l). 7 \<le> length (parseCSVLine l)) (enumerate 1 (drop 1 (csvLines text))))
   \<and> parseTravelCSV clk text =
     map (\<lambda>(i, l). travelItem clk i (parseCSVLine l))
       (filter (\<lambda>(i, l). 3 \<le> length (parseCSVLine l)) (enumerate 1 (drop 1 (csvLines text))))
   \<and> parseMusicCSV clk text =
     map (\<lambda>(i, l). musicItem clk i (parseCSVLine l))
       (filter (\<lambda>(i, l). 3 \<le> length (parseCSVLine l)) (enumerate 1 (drop 1 (csvLines text))))
   \<and> parseMediaCSV clk text =
     map (\<lambda>(i, l). mediaItem clk i (parseCSVLine l))
       (filter (\<lambda>(i, l). 4 \<le> length (parseCSVLine l)) (enumerate 1 (drop 1 (csvLines text))))
   \<and> parseExperienceCSV clk text =
     map (\<lambda>(i, l). experienceItem clk i (parseCSVLine l))
       (filter (\<lambda>(i, l). 5 \<le> length (parseCSVLine l)) (enumerate 1 (drop 1 (csvLines text))))
   \<and> parseDiaryCSV clk text =
     map (\<lambda>(i, l). diaryItem clk i (parseCSVLine l))
       (filter (\<lambda>(i, l). 3 \<le> length (parseCSVLine l)) (enumerate 1 (drop 1 (csvLines text))))
   \<and> map parseCSVLine (drop 1 (csvLines shortRowText))
       = [[js ''x1'', js ''dev'', js ''c'', js ''2020'', js ''d'', js ''go;rust''], [js ''x'', js ''y'']]
   \<and> parseExperienceCSV clk shortRowText = [sampleExperience]"
proof -
  have lines: "map parseCSVLine (drop 1 (csvLines shortRowText))
       = [[js ''x1'', js ''dev'', js ''c'', js ''2020'', js ''d'', js ''go;rust''], [js ''x'', js ''y'']]"
    by code_simp
  have "parseExperienceCSV clk shortRowText
      = map (\<lambda>(i, cols). experienceItem clk i cols)
          (filter (\<lambda>(i, cols). 5 \<le> length cols) (enumerate 1 (map parseCSVLine (drop 1 (csvLines shortRowText)))))"
    unfolding rows_characterised(5) by (rule rows_via_cols)
  also have "\<dots> = [experienceItem clk 1 [js ''x1'', js ''dev'', js ''c'', js ''2020'', js ''d'', js ''go;rust'']]"
    unfolding lines by simp
  also have "\<dots> = [sampleExperience]"
    by (simp add: experienceItem_def idOf_def sampleExperience_def tags_go_rust numeral_eq_Suc) (simp add: js_def)
  finally show ?thesis using lines rows_characterised [of clk "text"] by simp
qed

subsection \<open>C4: the travel status\<close>

lemma travel_status_by_line:
  "map status_ts (parseTravelCSV clk text) =
     map (\<lambda>l. travelStatusOf (at (parseCSVLine l) 3))
       (filter (\<lambda>l. 3 \<le> length (parseCSVLine l)) (drop 1 (csvLines text)))"
proof -
  have "map status_ts (parseTravelCSV clk text) =
      map (\<lambda>(i, l). travelStatusOf (at (parseCSVLine l) 3))
        (filter (\<lambda>(i, l). 3 \<le> length (parseCSVLine l)) (enumerate 1 (drop 1 (csvLines text))))"
    by (simp add: rows_characterised(2) travelItem_def case_prod_unfold comp_def)
  then show ?thesis by (simp only: map_rows_by_line)
qed

text \<open>
  C4.  For every travel text, the status of each record is decided by the status cell of
  its row alone: \<open>Visited\<close> and its Chinese and Japanese synonyms give \<open>VISITED\<close>, every
  other cell (and a missing cell) gives \<open>WANT_TO_GO\<close>; the cell \<open>unknown\<close> gives
  \<open>WANT_TO_GO\<close>.
\<close>

theorem travel_status_allow_list:
  "map status_ts (parseTravelCSV clk text) =
     map (\<lambda>l. travelStatusOf (at (parseCSVLine l) 3))
       (filter (\<lambda>l. 3 \<le> length (parseCSVLine l)) (drop 1 (csvLines text)))
   \<and> travelStatusOf (Some (js ''Visited'')) = VISITED
   \<and> travelStatusOf (Some visited_zh) = VISITED
   \<and> travelStatusOf (Some visited_ja) = VISITED
   \<and> (cell \<noteq> Some (js ''Visited'') \<and> cell \<noteq> Some visited_zh \<and> cell \<noteq> Some visited_ja
        \<longrightarrow> travelStatusOf cell = WANT_TO_GO)
   \<and> travelStatusOf (Some (js ''unknown'')) = WANT_TO_GO
   \<and> map status_ts (parseTravelCSV clk statusText) = [WANT_TO_GO, VISITED]"
proof -
  have "map (\<lambda>l. travelStatusOf (at (parseCSVLine l) 3))
         (filter (\<lambda>l. 3 \<le> length (parseCSVLine l)) (drop 1 (csvLines statusText))) = [WANT_TO_GO, VISITED]"
    by code_simp
  then have "map status_ts (parseTravelCSV clk statusText) = [WANT_TO_GO, VISITED]"
    by (simp only: travel_status_by_line)
  moreover have "travelStatusOf (Some (js ''unknown'')) = WANT_TO_GO" by code_simp
  moreover have "travelStatusOf (Some (js ''Visited'')) = VISITED" "travelStatusOf (Some visited_zh) = VISITED"
      "travelStatusOf (Some visited_ja) = VISITED"
    by (simp_all add: travelStatusOf_def)
  ultimately show ?thesis using travel_status_by_line [of clk "text"] by (simp add: travelStatusOf_def)
qed

theorem travel_status_allow_list_witness:
  "Some (js ''unknown'') \<noteq> Some (js ''Visited'') \<and> Some (js ''unknown'') \<noteq> Some visited_zh
   \<and> Some (js ''unknown'') \<noteq> Some visited_ja
   \<and> travelStatusOf (Some (js ''unknown'')) = WANT_TO_GO
   \<and> map status_ts (parseTravelCSV (fixedClock 0) statusText) = [WANT_TO_GO, VISITED]"
proof -
  have "Some (js ''unknown'') \<noteq> Some (js ''Visited'')" "Some (js ''unknown'') \<noteq> Some visited_zh"
      "Some (js ''unknown'') \<noteq> Some visited_ja"
    by (simp_all add: js_def visited_zh_def visited_ja_def)
  then show ?thesis
    using travel_status_allow_list [of "fixedClock 0" statusText "Some (js ''unknown'')"] by blast
qed

subsection \<open>C5: the default of \<open>addedAt\<close>\<close>





subsection \<open>C6: optional fields\<close>

text \<open>
  C6, as stated, fails on an empty mood cell: the diary row \<open>1,2024-01-01,hello,,,5\<close>
  gives a record whose mood is the empty string, not \<open>undefined\<close>.
\<close>

theorem empty_mood_counterexample:
  "map (\<lambda>l. at (parseCSVLine l) 3) (drop 1 (csvLines emptyMoodText)) = [Some []]
   \<and> map mood_de (parseDiaryCSV (fixedClock 0) emptyMoodText) = [Some []]
   \<and> map mood_de (parseDiaryCSV (fixedClock 0) emptyMoodText) \<noteq> [None]"
  by code_simp

lemma Number_empty: "Number (Some []) = IntNum 0" "Number None = NaN"
  by (simp_all add: Number_def trim_def)

text \<open>
  C6, amended: for every accepted row, an optional string field (diary mood, travel
  userNotes, media link and notes) is the string of its cell, so the empty string for an
  empty cell, and \<open>undefined\<close> only when the row ends before the cell; an optional
  numeric field (travel rating, media rating) is \<open>undefined\<close> when its cell is empty or
  missing.
\<close>

theorem optional_fields:
  "(diaryRow clk i line = Some entry \<longrightarrow> mood_de entry = at (parseCSVLine line) 3)
   \<and> (travelRow clk i line = Some spot \<longrightarrow>
        userNotes_ts spot = at (parseCSVLine line) 6
        \<and> (at (parseCSVLine line) 5 = Some [] \<or> at (parseCSVLine line) 5 = None \<longrightarrow> rating_ts spot = None))
   \<and> (mediaRow clk i line = Some item \<longrightarrow>
        link_me item = at (parseCSVLine line) 4 \<and> notes_me item = at (parseCSVLine line) 6
        \<and> (at (parseCSVLine line) 5 = Some [] \<or> at (parseCSVLine line) 5 = None \<longrightarrow> rating_me item = None))"
  by (auto simp: diaryRow_def diaryItem_def travelRow_def travelItem_def mediaRow_def mediaItem_def
      Let_def Number_empty truthyNum_def split: if_splits)


theorem optional_fields_witness:
  "diaryRow (fixedClock 0) 1 emptyCellsLine = Some (diaryItem (fixedClock 0) 1 (parseCSVLine emptyCellsLine))
   \<and> mood_de (diaryItem (fixedClock 0) 1 (parseCSVLine emptyCellsLine)) = Some (js ''Watching'')
   \<and> travelRow (fixedClock 0) 1 emptyCellsLine = Some (travelItem (fixedClock 0) 1 (parseCSVLine emptyCellsLine))
   \<and> userNotes_ts (travelItem (fixedClock 0) 1 (parseCSVLine emptyCellsLine)) = Some []
   \<and> at (parseCSVLine emptyCellsLine) 5 = Some []
   \<and> rating_ts (travelItem (fixedClock 0) 1 (parseCSVLine emptyCellsLine)) = None
   \<and> mediaRow (fixedClock 0) 1 emptyCellsLine = Some (mediaItem (fixedClock 0) 1 (parseCSVLine emptyCellsLine))
   \<and> link_me (mediaItem (fixedClock 0) 1 (parseCSVLine emptyCellsLine)) = Some []
   \<and> notes_me (mediaItem (fixedClock 0) 1 (parseCSVLine emptyCellsLine)) = Some []
   \<and> rating_me (mediaItem (fixedClock 0) 1 (parseCSVLine emptyCellsLine)) = None"
proof -
  have cols: "parseCSVLine emptyCellsLine
      = [js ''1'', js ''name'', js ''Anime'', js ''Watching'', [], [], [], js ''5'']"
    by code_simp
  have rows: "diaryRow (fixedClock 0) 1 emptyCellsLine = Some (diaryItem (fixedClock 0) 1 (parseCSVLine emptyCellsLine))"
    "travelRow (fixedClock 0) 1 emptyCellsLine = Some (travelItem (fixedClock 0) 1 (parseCSVLine emptyCellsLine))"
    "mediaRow (fixedClock 0) 1 emptyCellsLine = Some (mediaItem (fixedClock 0) 1 (parseCSVLine emptyCellsLine))"
    by (simp_all add: diaryRow_def travelRow_def mediaRow_def cols)
  have cells: "at (parseCSVLine emptyCellsLine) 3 = Some (js ''Watching'')"
    "at (parseCSVLine emptyCellsLine) 4 = Some []" "at (parseCSVLine emptyCellsLine) 5 = Some []"
    "at (parseCSVLine emptyCellsLine) 6 = Some []"
    by (simp_all add: cols numeral_eq_Suc)
  show ?thesis
    using optional_fields [of "fixedClock 0" 1 emptyCellsLine
        "diaryItem (fixedClock 0) 1 (parseCSVLine emptyCellsLine)"
        "travelItem (fixedClock 0) 1 (parseCSVLine emptyCellsLine)"
        "mediaItem (fixedClock 0) 1 (parseCSVLine emptyCellsLine)"] rows cells
    by simp
qed

subsection \<open>C7: compound list fields\<close>




subsection \<open>C8: synthesized ids\<close>

lemma length_digitsOf_mono: "a \<le> b \<Longrightarrow> length (digitsOf a) \<le> length (digitsOf b)"
proof (induction b arbitrary: a rule: digitsOf.induct)
  case (1 b)
  show ?case
  proof (cases "b < 10")
    case True
    then have "a < 10" using 1(2) by simp
    then show ?thesis using True by (simp add: digitsOf.simps [of a] digitsOf.simps [of b])
  next
    case False
    show ?thesis
    proof (cases "a < 10")
      case True
      then show ?thesis using False by (simp add: digitsOf.simps [of a] digitsOf.simps [of b])
    next
      case a: False
      have "a div 10 \<le> b div 10" using 1(2) by (rule div_le_mono)
      then have "length (digitsOf (a div 10)) \<le> length (digitsOf (b div 10))"
        using 1(1) False by simp
      then show ?thesis using False a by (simp add: digitsOf.simps [of a] digitsOf.simps [of b])
    qed
  qed
qed

lemma digitsOf_inj: "digitsOf a = digitsOf b \<Longrightarrow> a = b"
  by (metis digitsValue_digitsOf)

lemma synthId_nonneg:
  "0 \<le> clk i ForId \<Longrightarrow> synthId clk i = digitsOf (nat (clk i ForId)) @ digitsOf i"
  by (simp add: synthId_def Date_now_def numToString_def)

lemma synthId_inj:
  assumes mono: "\<forall>i j. i \<le> j \<longrightarrow> 0 \<le> clk i ForId \<and> clk i ForId \<le> clk j ForId"
    and eq: "synthId clk i = synthId clk j"
  shows "i = j"
proof -
  have aux: "i' = j'" if le: "i' \<le> j'" and e: "synthId clk i' = synthId clk j'" for i' j'
  proof -
    have nn: "0 \<le> clk i' ForId" "0 \<le> clk j' ForId" "clk i' ForId \<le> clk j' ForId"
      using mono le by (auto dest: spec [of _ i'] spec [of _ j'])
    let ?a = "nat (clk i' ForId)" and ?b = "nat (clk j' ForId)"
    have e': "digitsOf ?a @ digitsOf i' = digitsOf ?b @ digitsOf j'"
      using e nn by (simp add: synthId_nonneg)
    have l1: "length (digitsOf ?a) \<le> length (digitsOf ?b)"
      using nn by (intro length_digitsOf_mono) simp
    have l2: "length (digitsOf i') \<le> length (digitsOf j')"
      using le by (rule length_digitsOf_mono)
    have "length (digitsOf ?a) + length (digitsOf i') = length (digitsOf ?b) + length (digitsOf j')"
      using e' by (metis length_append)
    then have "length (digitsOf ?a) = length (digitsOf ?b)" using l1 l2 by linarith
    then have "digitsOf i' = digitsOf j'" using e' by simp
    then show ?thesis by (rule digitsOf_inj)
  qed
  show ?thesis
  proof (cases "i \<le> j")
    case True
    then show ?thesis using aux eq by blast
  next
    case False
    then have "j \<le> i" by simp
    then show ?thesis using aux [of j i] eq by simp
  qed
qed

lemma distinct_synth_rows:
  assumes mono: "\<forall>i j. i \<le> j \<longrightarrow> 0 \<le> clk i ForId \<and> clk i ForId \<le> clk j ForId"
  shows "distinct (map (\<lambda>(i, l). synthId clk i) (filter P (enumerate n ls)))"
proof -
  have "distinct (map fst (filter P (enumerate n ls)))"
    by (rule distinct_map_filter) simp
  moreover have "inj_on (synthId clk) (set (map fst (filter P (enumerate n ls))))"
  proof (rule inj_onI)
    fix i j assume "synthId clk i = synthId clk j"
    with mono show "i = j" by (rule synthId_inj)
  qed
  ultimately have "distinct (map (synthId clk) (map fst (filter P (enumerate n ls))))"
    by (simp only: distinct_map simp_thms)
  then show ?thesis by (simp add: case_prod_unfold comp_def)
qed

lemma idOf_missing: "at cols 0 = Some [] \<Longrightarrow> idOf clk i cols = synthId clk i"
  by (simp add: idOf_def)

lemma map_filter_cong_set:
  "(\<And>x. x \<in> set xs \<Longrightarrow> P x \<Longrightarrow> f x = g x) \<Longrightarrow> map f (filter P xs) = map g (filter P xs)"
  by (induction xs) auto

text \<open>
  C8.  A row whose id cell is empty gets the id made of the decimal digits of the current
  time followed by the decimal digits of the row index.  For every text whose data rows
  all have an empty id cell, the ids of the parsed records are pairwise distinct, for
  each of the six parsers.  The clock is read once for each such row; it is taken not to
  be negative and not to run backwards while the rows are read.
\<close>

theorem synthesized_ids_distinct:
  assumes "\<forall>i j. i \<le> j \<longrightarrow> 0 \<le> clk i ForId \<and> clk i ForId \<le> clk j ForId"
    and "\<forall>l \<in> set (drop 1 (csvLines text)). at (parseCSVLine l) 0 = Some []"
  shows "map id_jw (parseJapaneseCSV clk text) =
           map (\<lambda>(i, l). numToString (IntNum (clk i ForId)) @ numToString (IntNum (int i)))
             (filter (\<lambda>(i, l). 7 \<le> length (parseCSVLine l)) (enumerate 1 (drop 1 (csvLines text))))
         \<and> distinct (map id_jw (parseJapaneseCSV clk text))
         \<and> map id_ex (parseExperienceCSV clk text) =
           map (\<lambda>(i, l). numToString (IntNum (clk i ForId)) @ numToString (IntNum (int i)))
             (filter (\<lambda>(i, l). 5 \<le> length (parseCSVLine l)) (enumerate 1 (drop 1 (csvLines text))))
         \<and> distinct (map id_ex (parseExperienceCSV clk text))
         \<and> map id_ts (parseTravelCSV clk text) =
           map (\<lambda>(i, l). numToString (IntNum (clk i ForId)) @ numToString (IntNum (int i)))
             (filter (\<lambda>(i, l). 3 \<le> length (parseCSVLine l)) (enumerate 1 (drop 1 (csvLines text))))
         \<and> distinct (map id_ts (parseTravelCSV clk text))
         \<and> map id_mu (parseMusicCSV clk text) =
           map (\<lambda>(i, l). numToString (IntNum (clk i ForId)) @ numToString (IntNum (int i)))
             (filter (\<lambda>(i, l). 3 \<le> length (parseCSVLine l)) (enumerate 1 (drop 1 (csvLines text))))
         \<and> distinct (map id_mu (parseMusicCSV clk text))
         \<and> map id_me (parseMediaCSV clk text) =
           map (\<lambda>(i, l). numToString (IntNum (clk i ForId)) @ numToString (IntNum (int i)))
             (filter (\<lambda>(i, l). 4 \<le> length (parseCSVLine l)) (enumerate 1 (drop 1 (csvLines text))))
         \<and> distinct (map id_me (parseMediaCSV clk text))
         \<and> map id_de (parseDiaryCSV clk text) =
           map (\<lambda>(i, l). numToString (IntNum (clk i ForId)) @ numToString (IntNum (int i)))
             (filter (\<lambda>(i, l). 3 \<le> length (parseCSVLine l)) (enumerate 1 (drop 1 (csvLines text))))
         \<and> distinct (map id_de (parseDiaryCSV clk text))"
proof -
  let ?ls = "enumerate 1 (drop 1 (csvLines text))"
  have missing: "idOf clk i (parseCSVLine l) = synthId clk i" if "(i, l) \<in> set ?ls" for i l
  proof -
    have "snd (i, l) \<in> snd ` set ?ls" using that by (rule imageI)
    then have "l \<in> set (map snd ?ls)" by (simp only: set_map snd_conv)
    then have "l \<in> set (drop 1 (csvLines text))" by (simp only: map_snd_enumerate)
    then show ?thesis using assms(2) by (intro idOf_missing) blast
  qed
  have jw: "map id_jw (parseJapaneseCSV clk text) =
      map (\<lambda>(i, l). synthId clk i) (filter (\<lambda>(i, l). 7 \<le> length (parseCSVLine l)) ?ls)"
    unfolding rows_characterised(1) map_map
    by (rule map_filter_cong_set) (auto simp: japaneseItem_def missing)
  have ex: "map id_ex (parseExperienceCSV clk text) =
      map (\<lambda>(i, l). synthId clk i) (filter (\<lambda>(i, l). 5 \<le> length (parseCSVLine l)) ?ls)"
    unfolding rows_characterised(5) map_map
    by (rule map_filter_cong_set) (auto simp: experienceItem_def missing)
  have ts: "map id_ts (parseTravelCSV clk text) =
      map (\<lambda>(i, l). synthId clk i) (filter (\<lambda>(i, l). 3 \<le> length (parseCSVLine l)) ?ls)"
    unfolding rows_characterised(2) map_map
    by (rule map_filter_cong_set) (auto simp: travelItem_def missing)
  have mu: "map id_mu (parseMusicCSV clk text) =
      map (\<lambda>(i, l). synthId clk i) (filter (\<lambda>(i, l). 3 \<le> length (parseCSVLine l)) ?ls)"
    unfolding rows_characterised(3) map_map
    by (rule map_filter_cong_set) (auto simp: musicItem_def missing)
  have me: "map id_me (parseMediaCSV clk text) =
      map (\<lambda>(i, l). synthId clk i) (filter (\<lambda>(i, l). 4 \<le> length (parseCSVLine l)) ?ls)"
    unfolding rows_characterised(4) map_map
    by (rule map_filter_cong_set) (auto simp: mediaItem_def missing)
  have de: "map id_de (parseDiaryCSV clk text) =
      map (\<lambda>(i, l). synthId clk i) (filter (\<lambda>(i, l). 3 \<le> length (parseCSVLine l)) ?ls)"
    unfolding rows_characterised(6) map_map
    by (rule map_filter_cong_set) (auto simp: diaryItem_def missing)
  have s: "synthId clk i = numToString (IntNum (clk i ForId)) @ numToString (IntNum (int i))" for i
    by (simp add: synthId_def Date_now_def)
  have d: "distinct (map (\<lambda>(i, l). synthId clk i) (filter (\<lambda>(i, l). n \<le> length (parseCSVLine l)) ?ls))" for n
    using assms(1) by (rule distinct_synth_rows)
  show ?thesis
    using d [of 7] d [of 5] d [of 4] d [of 3]
    unfolding jw ex ts mu me de by (simp add: s)
qed

theorem synthesized_ids_distinct_witness:
  "map (\<lambda>l. at (parseCSVLine l) 0) (drop 1 (csvLines noIdText)) = [Some [], Some []]
   \<and> map id_jw (parseJapaneseCSV (fixedClock 17) noIdText) = [js ''171'', js ''172'']
   \<and> distinct (map id_jw (parseJapaneseCSV (fixedClock 17) noIdText))
   \<and> map id_ex (parseExperienceCSV (fixedClock 17) noIdText) = [js ''171'', js ''172'']
   \<and> distinct (map id_ex (parseExperienceCSV (fixedClock 17) noIdText))"
proof -
  have clock: "\<forall>i j. i \<le> j \<longrightarrow> 0 \<le> fixedClock 17 i ForId \<and> fixedClock 17 i ForId \<le> fixedClock 17 j ForId"
    by (simp add: fixedClock_def)
  have cells: "map (\<lambda>l. at (parseCSVLine l) 0) (drop 1 (csvLines noIdText)) = [Some [], Some []]"
    by code_simp
  have rows: "\<forall>l \<in> set (drop 1 (csvLines noIdText)). at (parseCSVLine l) 0 = Some []"
    by code_simp
  have ids: "map id_jw (parseJapaneseCSV (fixedClock 17) noIdText) = [js ''171'', js ''172'']"
    "map id_ex (parseExperienceCSV (fixedClock 17) noIdText) = [js ''171'', js ''172'']"
    by code_simp+
  show ?thesis
    using synthesized_ids_distinct [of "fixedClock 17" noIdText] clock rows cells ids by blast
qed

subsection \<open>C9: merge on import\<close>

lemma sameWord_parsed: "parseJapaneseCSV clk (generateJapaneseCSV [sameWord]) = [sameWord]"
proof -
  have "japaneseOK sameWord" by code_simp
  then show ?thesis by (intro japanese_roundtrip) simp
qed

lemma sampleSpot_parsed: "parseTravelCSV clk (generateTravelCSV [sampleSpot]) = [sampleSpot]"
  using samples_ok(2) by (intro travel_roundtrip) simp

text \<open>
  C9.  On import, the vocabulary list becomes the parsed records whose \<open>word\<close> does not
  occur in the held list, followed by the held list; the travel list likewise with
  \<open>name\<close>.  When every parsed record has a key that is already held, the list is
  unchanged, and so is its length: importing the text of one record with the word of
  \<open>sampleWord\<close> into the list \<open>[sampleWord]\<close> leaves one record.
\<close>

theorem merge_import_dedup:
  "importJapanese clk text prev =
     filter (\<lambda>i. word_jw i \<notin> set (map word_jw prev)) (parseJapaneseCSV clk text) @ prev
   \<and> importTravel clk text spots =
     filter (\<lambda>i. name_ts i \<notin> set (map name_ts spots)) (parseTravelCSV clk text) @ spots
   \<and> ((\<forall>i \<in> set (parseJapaneseCSV clk text). word_jw i \<in> set (map word_jw prev))
        \<longrightarrow> importJapanese clk text prev = prev \<and> length (importJapanese clk text prev) = length prev)
   \<and> ((\<forall>i \<in> set (parseTravelCSV clk text). name_ts i \<in> set (map name_ts spots))
        \<longrightarrow> importTravel clk text spots = spots \<and> length (importTravel clk text spots) = length spots)
   \<and> length (importJapanese clk (generateJapaneseCSV [sameWord]) [sampleWord]) = length [sampleWord]"
proof -
  have "word_jw sameWord = word_jw sampleWord" by (simp add: sameWord_def)
  then have "importJapanese clk (generateJapaneseCSV [sameWord]) [sampleWord] = [sampleWord]"
    by (simp add: importJapanese_def mergeJapanese_def sameWord_parsed)
  then show ?thesis
    by (auto simp: importJapanese_def mergeJapanese_def importTravel_def mergeTravel_def Let_def filter_empty_conv)
qed

theorem merge_import_dedup_witness:
  "map word_jw (parseJapaneseCSV (fixedClock 0) (generateJapaneseCSV [sameWord])) = [js ''neko'']
   \<and> map word_jw [sampleWord] = [js ''neko'']
   \<and> importJapanese (fixedClock 0) (generateJapaneseCSV [sameWord]) [sampleWord] = [sampleWord]
   \<and> map name_ts (parseTravelCSV (fixedClock 0) (generateTravelCSV [sampleSpot])) = map name_ts [sampleSpot]
   \<and> importTravel (fixedClock 0) (generateTravelCSV [sampleSpot]) [sampleSpot] = [sampleSpot]"
proof -
  have w: "map word_jw (parseJapaneseCSV (fixedClock 0) (generateJapaneseCSV [sameWord])) = [js ''neko'']"
      "map word_jw [sampleWord] = [js ''neko'']"
    by (simp_all add: sameWord_parsed) (simp_all add: sameWord_def sampleWord_def)
  have t: "map name_ts (parseTravelCSV (fixedClock 0) (generateTravelCSV [sampleSpot])) = map name_ts [sampleSpot]"
    by (simp add: sampleSpot_parsed)
  have h1: "\<forall>i \<in> set (parseJapaneseCSV (fixedClock 0) (generateJapaneseCSV [sameWord])).
              word_jw i \<in> set (map word_jw [sampleWord])"
    by (simp add: sameWord_parsed) (simp add: sameWord_def)
  have h2: "\<forall>i \<in> set (parseTravelCSV (fixedClock 0) (generateTravelCSV [sampleSpot])).
              name_ts i \<in> set (map name_ts [sampleSpot])"
    by (simp add: sampleSpot_parsed)
  have "importJapanese (fixedClock 0) (generateJapaneseCSV [sameWord]) [sampleWord] = [sampleWord]"
    using merge_import_dedup [of "fixedClock 0" "generateJapaneseCSV [sameWord]" "[sampleWord]"] h1 by blast
  moreover have "importTravel (fixedClock 0) (generateTravelCSV [sampleSpot]) [sampleSpot] = [sampleSpot]"
    using merge_import_dedup [of "fixedClock 0" "generateTravelCSV [sampleSpot]" _ "[sampleSpot]"] h2 by blast
  ultimately show ?thesis using w t by simp
qed

subsection \<open>C10: the media type is not validated\<close>

lemma mediaStatusOf_allowed: "mediaStatusOf s \<in> set MediaStatus_values"
  by (simp add: mediaStatusOf_def MediaStatus_values_def)

lemma media_types_by_line:
  "map type_me (parseMediaCSV clk text) =
     map (\<lambda>l. parseCSVLine l ! 1) (filter (\<lambda>l. 4 \<le> length (parseCSVLine l)) (drop 1 (csvLines text)))"
proof -
  have "map type_me (parseMediaCSV clk text) =
      map (\<lambda>(i, l). parseCSVLine l ! 1)
        (filter (\<lambda>(i, l). 4 \<le> length (parseCSVLine l)) (enumerate 1 (drop 1 (csvLines text))))"
    by (simp add: rows_characterised(4) mediaItem_def case_prod_unfold comp_def)
  then show ?thesis by (simp only: map_rows_by_line)
qed

text \<open>
  C10.  For every media text, the type of each record is the second cell of its row as
  it stands; the text \<open>podcastText\<close> gives a record whose type \<open>Podcast\<close> is none of
  the four values of \<open>MediaType\<close>; the status of every record is one of the three
  status literals (the cell \<open>Paused\<close> gives \<open>Watching\<close>).
\<close>

theorem media_type_unvalidated:
  "map type_me (parseMediaCSV clk text) =
     map (\<lambda>l. parseCSVLine l ! 1) (filter (\<lambda>l. 4 \<le> length (parseCSVLine l)) (drop 1 (csvLines text)))
   \<and> map type_me (parseMediaCSV clk podcastText) = [js ''Podcast'']
   \<and> js ''Podcast'' \<notin> set MediaType_values
   \<and> (\<exists>input. \<exists>item \<in> set (parseMediaCSV clk input). type_me item \<notin> set MediaType_values)
   \<and> (\<forall>item \<in> set (parseMediaCSV clk text). status_me item \<in> set MediaStatus_values)
   \<and> map status_me (parseMediaCSV clk podcastText) = [js ''Watching'']"
proof -
  have cols: "map parseCSVLine (drop 1 (csvLines podcastText)) = [[js ''1'', js ''Podcast'', js ''t'', js ''Paused'']]"
    by code_simp
  have parsed: "parseMediaCSV clk podcastText
      = [mediaItem clk 1 [js ''1'', js ''Podcast'', js ''t'', js ''Paused'']]"
    unfolding rows_characterised(4) rows_via_cols cols by simp
  have ty: "map type_me (parseMediaCSV clk podcastText) = [js ''Podcast'']"
    unfolding parsed by (simp add: mediaItem_def)
  have st: "mediaStatusOf (js ''Paused'') = js ''Watching''" by code_simp
  have st': "map status_me (parseMediaCSV clk podcastText) = [js ''Watching'']"
    unfolding parsed by (simp add: mediaItem_def numeral_eq_Suc st)
  have notin: "js ''Podcast'' \<notin> set MediaType_values" by code_simp
  have ex: "\<exists>input. \<exists>item \<in> set (parseMediaCSV clk input). type_me item \<notin> set MediaType_values"
  proof (intro exI bexI)
    show "mediaItem clk 1 [js ''1'', js ''Podcast'', js ''t'', js ''Paused''] \<in> set (parseMediaCSV clk podcastText)"
      unfolding parsed by simp
    show "type_me (mediaItem clk 1 [js ''1'', js ''Podcast'', js ''t'', js ''Paused'']) \<notin> set MediaType_values"
      using notin by (simp add: mediaItem_def)
  qed
  have all: "\<forall>item \<in> set (parseMediaCSV clk text). status_me item \<in> set MediaStatus_values"
    unfolding rows_characterised(4) by (auto simp: mediaItem_def mediaStatusOf_allowed)
  show ?thesis using media_types_by_line [of clk "text"] ty notin ex all st' by blast
qed

theorem media_type_unvalidated_witness:
  "map type_me (parseMediaCSV (fixedClock 0) podcastText) = [js ''Podcast'']
   \<and> js ''Podcast'' \<notin> set MediaType_values
   \<and> map status_me (parseMediaCSV (fixedClock 0) podcastText) = [js ''Watching'']
   \<and> js ''Watching'' \<in> set MediaStatus_values"
proof -
  have "js ''Watching'' \<in> set MediaStatus_values" by (simp add: MediaStatus_values_def)
  then show ?thesis using media_type_unvalidated [of "fixedClock 0" podcastText] by blast
qed

end
